theory Spec2Isabelle
  imports Main "HOL-Library.AList" "HOL-Library.Sublist"
begin

section \<open>Python strings\<close>

text \<open>
  \<^verbatim>\<open>s.split(sep)\<close> for a one-character separator: the result is never empty, and
  none of its pieces contains the separator.
\<close>

fun split_on :: "char \<Rightarrow> string \<Rightarrow> string list" where
  "split_on sep [] = [[]]"
| "split_on sep (x # xs) =
     (if x = sep then [] # split_on sep xs
      else (case split_on sep xs of [] \<Rightarrow> [[x]] | w # ws \<Rightarrow> (x # w) # ws))"

text \<open>\<^verbatim>\<open>sep.join(xs)\<close>.\<close>

fun join :: "string \<Rightarrow> string list \<Rightarrow> string" where
  "join sep [] = []"
| "join sep [s] = s"
| "join sep (s # t # ts) = s @ sep @ join sep (t # ts)"

text \<open>\<^verbatim>\<open>sub in s\<close>: \<open>sub\<close> occurs in \<open>s\<close> as a contiguous run of characters.\<close>

fun contains :: "string \<Rightarrow> string \<Rightarrow> bool" where
  "contains sub [] = (sub = [])"
| "contains sub (x # xs) = (prefix sub (x # xs) \<or> contains sub xs)"

text \<open>\<^verbatim>\<open>s.endswith(suf)\<close>.\<close>

definition endswith :: "string \<Rightarrow> string \<Rightarrow> bool" where
  "endswith s suf = prefix (rev suf) (rev s)"

section \<open>Exceptions\<close>

text \<open>
  An exception class is the chain of its base classes up to \<^verbatim>\<open>BaseException\<close>
  (single inheritance), so that \<^verbatim>\<open>except C\<close> catches every subclass of \<open>C\<close>.
\<close>

datatype exc_class = BaseException | Derived string exc_class

primrec issubclass :: "exc_class \<Rightarrow> exc_class \<Rightarrow> bool" where
  "issubclass BaseException d = (d = BaseException)"
| "issubclass (Derived n b) d = (Derived n b = d \<or> issubclass b d)"

definition Exception :: exc_class where
  "Exception = Derived ''Exception'' BaseException"

definition OSError :: exc_class where
  "OSError = Derived ''OSError'' Exception"

text \<open>\<^verbatim>\<open>EnvironmentError\<close> and \<^verbatim>\<open>IOError\<close> are aliases of \<^verbatim>\<open>OSError\<close>.\<close>

definition EnvironmentError :: exc_class where
  "EnvironmentError = OSError"

definition PermissionError :: exc_class where
  "PermissionError = Derived ''PermissionError'' OSError"

definition FileNotFoundError :: exc_class where
  "FileNotFoundError = Derived ''FileNotFoundError'' OSError"

definition FileExistsError :: exc_class where
  "FileExistsError = Derived ''FileExistsError'' OSError"

definition NotADirectoryError :: exc_class where
  "NotADirectoryError = Derived ''NotADirectoryError'' OSError"

definition IsADirectoryError :: exc_class where
  "IsADirectoryError = Derived ''IsADirectoryError'' OSError"

definition ValueError :: exc_class where
  "ValueError = Derived ''ValueError'' Exception"

definition KeyError :: exc_class where
  "KeyError = Derived ''KeyError'' (Derived ''LookupError'' Exception)"

definition AssertionError :: exc_class where
  "AssertionError = Derived ''AssertionError'' Exception"

text \<open>\<^verbatim>\<open>tarfile.TarError\<close>, the base class of the errors of the tar reader.\<close>

definition TarError :: exc_class where
  "TarError = Derived ''TarError'' Exception"

text \<open>
  \<^verbatim>\<open>huggingface_hub.utils.RepositoryNotFoundError\<close>: an \<^verbatim>\<open>HfHubHTTPError\<close>, which is
  an \<^verbatim>\<open>HTTPError\<close> of the HTTP client, which is an \<^verbatim>\<open>IOError\<close>.
\<close>

definition RepositoryNotFoundError :: exc_class where
  "RepositoryNotFoundError =
     Derived ''RepositoryNotFoundError'' (Derived ''HfHubHTTPError''
       (Derived ''HTTPError'' (Derived ''RequestException'' OSError)))"

text \<open>An exception value: its class and \<^verbatim>\<open>str(e)\<close>.\<close>

datatype exc = Exc (cls: exc_class) (msg: string)

text \<open>\<^verbatim>\<open>except (C1, C2, ...)\<close> catches \<open>e\<close>.\<close>

definition caught_by :: "exc_class list \<Rightarrow> exc \<Rightarrow> bool" where
  "caught_by cs e = list_ex (issubclass (cls e)) cs"

section \<open>Paths\<close>

text \<open>
  A \<^verbatim>\<open>pathlib.Path\<close>: whether it is anchored at the root, and its components. Path
  strings are POSIX; a component \<^verbatim>\<open>..\<close> is outside the model. Relative paths are
  resolved from the root of the modelled file system.
\<close>

type_synonym path = "string list"

datatype ppath = PPath (anchored: bool) (parts: path)

text \<open>\<^verbatim>\<open>Path(s)\<close>: empty components and \<^verbatim>\<open>.\<close> are dropped.\<close>

definition proper :: "string \<Rightarrow> bool" where
  "proper c = (c \<noteq> [] \<and> c \<noteq> ''.'')"

definition Path :: "string \<Rightarrow> ppath" where
  "Path s = PPath (prefix ''/'' s) (filter proper (split_on CHR ''/'' s))"

text \<open>\<^verbatim>\<open>str(p)\<close>.\<close>

definition str :: "ppath \<Rightarrow> string" where
  "str p = (if anchored p then ''/'' @ join ''/'' (parts p)
            else if parts p = [] then ''.'' else join ''/'' (parts p))"

text \<open>\<^verbatim>\<open>p / s\<close>: an absolute right operand replaces the left one.\<close>

definition joinpath :: "ppath \<Rightarrow> string \<Rightarrow> ppath" where
  "joinpath p s =
     (if anchored (Path s) then Path s
      else PPath (anchored p) (parts p @ parts (Path s)))"

text \<open>The components the operating system resolves a path string to.\<close>

definition os_path :: "string \<Rightarrow> path" where
  "os_path s = parts (Path s)"

section \<open>The file system\<close>

text \<open>
  A directory is the list of its entries, in the order in which the operating system
  lists them; a regular file holds its bytes; \<open>Special\<close> stands for every other
  kind of entry (a socket, a FIFO, a dangling link).
\<close>

datatype node = File string | Special | Dir "(string \<times> node) list"

primrec lookup :: "node \<Rightarrow> path \<Rightarrow> node option" where
  "lookup n [] = Some n"
| "lookup n (c # cs) =
     (case n of
        Dir es \<Rightarrow> (case map_of es c of None \<Rightarrow> None | Some m \<Rightarrow> lookup m cs)
      | _ \<Rightarrow> None)"

definition exists :: "node \<Rightarrow> path \<Rightarrow> bool" where
  "exists root p = (lookup root p \<noteq> None)"

definition is_dir :: "node \<Rightarrow> path \<Rightarrow> bool" where
  "is_dir root p = (case lookup root p of Some (Dir es) \<Rightarrow> True | _ \<Rightarrow> False)"

definition is_file :: "node \<Rightarrow> path \<Rightarrow> bool" where
  "is_file root p = (case lookup root p of Some (File c) \<Rightarrow> True | _ \<Rightarrow> False)"

text \<open>
  \<^verbatim>\<open>Path.rglob(pattern)\<close> for a one-component pattern: the directory itself and then
  each of its subdirectories, recursively, are visited, and in each visited directory
  the entries whose name matches the pattern are yielded. How a name matches a pattern
  (\<^verbatim>\<open>fnmatch\<close>) is the parameter \<open>fm\<close>; for a literal file name it is equality.
\<close>

fun rglob :: "(string \<Rightarrow> string \<Rightarrow> bool) \<Rightarrow> string \<Rightarrow> path \<Rightarrow> node \<Rightarrow> path list" where
  "rglob fm pat p (Dir es) =
     map (\<lambda>e. p @ [fst e]) (filter (\<lambda>e. fm pat (fst e)) es)
     @ concat (map (\<lambda>e. rglob fm pat (p @ [fst e]) (snd e)) es)"
| "rglob fm pat p (File c) = []"
| "rglob fm pat p Special = []"

section \<open>locate_model_file\<close>

text \<open>
  The loop of \<^verbatim>\<open>locate_model_file\<close>: for each candidate in turn, the matches of the
  recursive search that are regular files; the first of them is returned.
\<close>

definition file_paths :: "(string \<Rightarrow> string \<Rightarrow> bool) \<Rightarrow> node \<Rightarrow> path \<Rightarrow> string \<Rightarrow> path list" where
  "file_paths fm root d file_name =
     filter (is_file root)
       (case lookup root d of Some n \<Rightarrow> rglob fm file_name d n | None \<Rightarrow> [])"

fun locate_loop :: "(string \<Rightarrow> string \<Rightarrow> bool) \<Rightarrow> node \<Rightarrow> path \<Rightarrow> string list \<Rightarrow> path option" where
  "locate_loop fm root d [] = None"
| "locate_loop fm root d (file_name # rest) =
     (case file_paths fm root d file_name of
        q # qs \<Rightarrow> Some q
      | [] \<Rightarrow> locate_loop fm root d rest)"

definition not_a_directory :: "ppath \<Rightarrow> exc" where
  "not_a_directory model_dir =
     Exc ValueError (''Provided model path '' @ [CHR 0x27] @ str model_dir @ [CHR 0x27]
                     @ '' is not a directory.'')"

definition could_not_find :: "ppath \<Rightarrow> string list \<Rightarrow> exc" where
  "could_not_find model_dir file_names =
     Exc ValueError (''Could not find either of '' @ join '', '' file_names
                     @ '' in '' @ str model_dir)"

definition locate_model_file ::
  "(string \<Rightarrow> string \<Rightarrow> bool) \<Rightarrow> node \<Rightarrow> ppath \<Rightarrow> string list \<Rightarrow> exc + ppath" where
  "locate_model_file fm root model_dir file_names =
     (if \<not> is_dir root (parts model_dir) then Inl (not_a_directory model_dir)
      else (case locate_loop fm root (parts model_dir) file_names of
              Some q \<Rightarrow> Inr (PPath (anchored model_dir) q)
            | None \<Rightarrow> Inl (could_not_find model_dir file_names)))"

text \<open>
  What the claims about the search call a match of a candidate: a regular file at the
  relative path \<open>r\<close> below the directory \<open>d\<close> whose name matches the candidate.
\<close>

definition file_match ::
  "(string \<Rightarrow> string \<Rightarrow> bool) \<Rightarrow> node \<Rightarrow> path \<Rightarrow> string \<Rightarrow> path \<Rightarrow> bool" where
  "file_match fm root d file_name r =
     (r \<noteq> [] \<and> fm file_name (last r) \<and> is_file root (d @ r))"

section \<open>File system operations\<close>

text \<open>
  \<open>modify p f\<close> replaces the entry at \<open>p\<close> by what \<open>f\<close> makes of it (\<open>None\<close>: no
  entry), when the parent of \<open>p\<close> is a directory; everything else is left as it is.
\<close>

fun modify :: "path \<Rightarrow> (node option \<Rightarrow> node option) \<Rightarrow> node \<Rightarrow> node" where
  "modify [] f n = n"
| "modify (c # cs) f n =
     (case n of
        Dir es \<Rightarrow>
          (if cs = [] then
             Dir (case f (map_of es c) of
                    None \<Rightarrow> AList.delete c es
                  | Some m \<Rightarrow> AList.update c m es)
           else (case map_of es c of
                   None \<Rightarrow> n
                 | Some m \<Rightarrow> Dir (AList.update c (modify cs f m) es)))
      | _ \<Rightarrow> n)"

definition put :: "path \<Rightarrow> node \<Rightarrow> node \<Rightarrow> node" where
  "put p x root = modify p (\<lambda>_. Some x) root"

definition remove :: "path \<Rightarrow> node \<Rightarrow> node" where
  "remove p root = modify p (\<lambda>_. None) root"

definition os_error :: "exc_class \<Rightarrow> exc" where
  "os_error c =
     Exc c (if c = FileNotFoundError then ''No such file or directory''
            else if c = FileExistsError then ''File exists''
            else if c = NotADirectoryError then ''Not a directory''
            else if c = IsADirectoryError then ''Is a directory''
            else ''Operation failed'')"

text \<open>
  \<^verbatim>\<open>Path.mkdir(parents=True, exist_ok=True)\<close> and \<^verbatim>\<open>os.makedirs\<close>: the missing
  directories along the path are created; an existing directory is accepted; a
  non-directory on the way is an error, and then nothing has been created.
\<close>

fun makedirs :: "path \<Rightarrow> node \<Rightarrow> exc + node" where
  "makedirs [] n = (case n of Dir es \<Rightarrow> Inr n | _ \<Rightarrow> Inl (os_error FileExistsError))"
| "makedirs (c # cs) n =
     (case n of
        Dir es \<Rightarrow>
          (case makedirs cs (case map_of es c of None \<Rightarrow> Dir [] | Some m \<Rightarrow> m) of
             Inl e \<Rightarrow> Inl e
           | Inr m' \<Rightarrow> Inr (Dir (AList.update c m' es)))
      | _ \<Rightarrow> Inl (os_error NotADirectoryError))"

text \<open>\<^verbatim>\<open>shutil.rmtree(p)\<close>.\<close>

definition rmtree :: "path \<Rightarrow> node \<Rightarrow> exc + node" where
  "rmtree p root =
     (case lookup root p of
        None \<Rightarrow> Inl (os_error FileNotFoundError)
      | Some (Dir es) \<Rightarrow> Inr (remove p root)
      | Some _ \<Rightarrow> Inl (os_error NotADirectoryError))"

text \<open>\<^verbatim>\<open>Path.unlink()\<close>.\<close>

definition unlink :: "path \<Rightarrow> node \<Rightarrow> exc + node" where
  "unlink p root =
     (case lookup root p of
        None \<Rightarrow> Inl (os_error FileNotFoundError)
      | Some (Dir es) \<Rightarrow> Inl (os_error IsADirectoryError)
      | Some _ \<Rightarrow> Inr (remove p root))"

text \<open>
  \<^verbatim>\<open>Path.rename(target)\<close> with the POSIX rules: one step that moves the whole entry;
  an empty directory at the target is replaced by a directory, a non-directory by a
  non-directory.
\<close>

definition rename :: "path \<Rightarrow> path \<Rightarrow> node \<Rightarrow> exc + node" where
  "rename src dst root =
     (case lookup root src of
        None \<Rightarrow> Inl (os_error FileNotFoundError)
      | Some x \<Rightarrow>
          if src = dst then Inr root
          else if dst = [] \<or> prefix src dst then Inl (Exc OSError ''Invalid argument'')
          else (case lookup root (butlast dst) of
                  None \<Rightarrow> Inl (os_error FileNotFoundError)
                | Some (Dir ps) \<Rightarrow>
                    (case lookup root dst of
                       None \<Rightarrow> Inr (put dst x (remove src root))
                     | Some (Dir es) \<Rightarrow>
                         (case x of
                            Dir xs \<Rightarrow>
                              if es = [] then Inr (put dst x (remove src root))
                              else Inl (Exc OSError ''Directory not empty'')
                          | _ \<Rightarrow> Inl (os_error IsADirectoryError))
                     | Some _ \<Rightarrow>
                         (case x of
                            Dir xs \<Rightarrow> Inl (os_error NotADirectoryError)
                          | _ \<Rightarrow> Inr (put dst x (remove src root))))
                | Some _ \<Rightarrow> Inl (os_error NotADirectoryError)))"

text \<open>
  \<^verbatim>\<open>open(p, "wb")\<close>, the writes and the close, as one operation: the file is created
  or replaced with the bytes written.
\<close>

definition write_file :: "path \<Rightarrow> string \<Rightarrow> node \<Rightarrow> exc + node" where
  "write_file p bytes root =
     (if p = [] then Inl (os_error IsADirectoryError)
      else (case lookup root (butlast p) of
              None \<Rightarrow> Inl (os_error FileNotFoundError)
            | Some (Dir ps) \<Rightarrow>
                (case lookup root p of
                   Some (Dir es) \<Rightarrow> Inl (os_error IsADirectoryError)
                 | _ \<Rightarrow> Inr (put p (File bytes) root))
            | Some _ \<Rightarrow> Inl (os_error NotADirectoryError)))"

text \<open>
  \<^verbatim>\<open>os.path.exists(s)\<close> and \<^verbatim>\<open>os.path.isfile(s)\<close> on a path string. A string that
  ends with a slash names a directory or nothing.
\<close>

definition os_path_exists :: "node \<Rightarrow> string \<Rightarrow> bool" where
  "os_path_exists root s =
     (s \<noteq> [] \<and> (if endswith s ''/'' then is_dir root (os_path s) else exists root (os_path s)))"

definition os_path_isfile :: "node \<Rightarrow> string \<Rightarrow> bool" where
  "os_path_isfile root s = (s \<noteq> [] \<and> \<not> endswith s ''/'' \<and> is_file root (os_path s))"

text \<open>
  \<^verbatim>\<open>open(s, "wb")\<close> on a path string, the writes and the close. A string that ends
  with a slash cannot be opened for writing.
\<close>

definition open_wb :: "string \<Rightarrow> string \<Rightarrow> node \<Rightarrow> exc + node" where
  "open_wb s bytes root =
     (if s = [] then Inl (os_error FileNotFoundError)
      else if endswith s ''/'' \<and> os_path s \<noteq> [] then
        (case lookup root (butlast (os_path s)) of
           None \<Rightarrow> Inl (os_error FileNotFoundError)
         | Some (Dir ps) \<Rightarrow>
             (case lookup root (os_path s) of
                None \<Rightarrow> Inl (os_error IsADirectoryError)
              | Some (Dir es) \<Rightarrow> Inl (os_error IsADirectoryError)
              | Some _ \<Rightarrow> Inl (os_error NotADirectoryError))
         | Some _ \<Rightarrow> Inl (os_error NotADirectoryError))
      else write_file (os_path s) bytes root)"

text \<open>
  Paths with \<^verbatim>\<open>..\<close> components, as the names of archive members can have them. The
  operating system resolves such a path component by component: \<^verbatim>\<open>..\<close> steps back
  to the parent of the directory reached so far, which has to be a directory.
  \<open>resolve root acc p\<close> is the path without \<^verbatim>\<open>..\<close> that \<open>p\<close> leads to from \<open>acc\<close>.
\<close>

fun resolve :: "node \<Rightarrow> path \<Rightarrow> path \<Rightarrow> path option" where
  "resolve root acc [] = Some acc"
| "resolve root acc (c # cs) =
     (if c = ''..''
      then (if is_dir root acc then resolve root (butlast acc) cs else None)
      else resolve root (acc @ [c]) cs)"

definition exists_dots :: "node \<Rightarrow> path \<Rightarrow> bool" where
  "exists_dots root p = (case resolve root [] p of None \<Rightarrow> False | Some q \<Rightarrow> exists root q)"

definition write_file_dots :: "path \<Rightarrow> string \<Rightarrow> node \<Rightarrow> exc + node" where
  "write_file_dots p bytes root =
     (case resolve root [] p of
        None \<Rightarrow> Inl (os_error FileNotFoundError)
      | Some q \<Rightarrow> write_file q bytes root)"

text \<open>
  \<^verbatim>\<open>os.makedirs\<close> on such a path: the directories before a \<^verbatim>\<open>..\<close> are created
  before the step back.
\<close>

fun makedirs_dots :: "path \<Rightarrow> path \<Rightarrow> node \<Rightarrow> exc + node" where
  "makedirs_dots acc [] n = makedirs acc n"
| "makedirs_dots acc (c # cs) n =
     (if c = ''..''
      then (case makedirs acc n of
              Inl e \<Rightarrow> Inl (os_error NotADirectoryError)
            | Inr n' \<Rightarrow> makedirs_dots (butlast acc) cs n')
      else makedirs_dots (acc @ [c]) cs n)"

text \<open>\<^verbatim>\<open>list(p.glob("*"))\<close>: the entries of a directory; nothing for anything else.\<close>

definition glob_star :: "node \<Rightarrow> path \<Rightarrow> path list" where
  "glob_star root p =
     (case lookup root p of Some (Dir es) \<Rightarrow> map (\<lambda>e. p @ [fst e]) es | _ \<Rightarrow> [])"

section \<open>The world: file system, network, output\<close>

text \<open>
  The effects of the module: the file system, the GET requests issued so far, what was
  printed, and what was logged as an error.
\<close>

record world =
  fs :: node
  requests :: "string list"
  stdout :: "string list"
  errlog :: "string list"

text \<open>
  What \<^verbatim>\<open>requests.get(url, stream=True)\<close> gives: the status, the value of the
  \<^verbatim>\<open>content-length\<close> header when the header is present, the chunks that
  \<^verbatim>\<open>iter_content\<close> delivers, and the exception with which the stream breaks off after
  them, if it does.
\<close>

record response =
  status_code :: int
  content_length :: "string option"
  chunks :: "string list"
  stream_error :: "exc option"

type_synonym transport = "string \<Rightarrow> exc + response"

text \<open>
  \<^verbatim>\<open>int(s)\<close> on a string: white space around, a sign, decimal digits with single
  underscores between them; anything else raises \<^verbatim>\<open>ValueError\<close> (here \<open>None\<close>).
\<close>

definition is_space :: "char \<Rightarrow> bool" where
  "is_space c = (c \<in> set [CHR '' '', CHR 0x09, CHR 0x0A, CHR 0x0B, CHR 0x0C, CHR 0x0D])"

definition strip :: "string \<Rightarrow> string" where
  "strip s = rev (dropWhile is_space (rev (dropWhile is_space s)))"

definition is_digit :: "char \<Rightarrow> bool" where
  "is_digit c = (c \<in> set ''0123456789'')"

fun digits_ok :: "string \<Rightarrow> bool" where
  "digits_ok [] = False"
| "digits_ok [c] = is_digit c"
| "digits_ok (c # d # ds) =
     (is_digit c \<and> (if d = CHR ''_'' then ds \<noteq> [] \<and> digits_ok ds else digits_ok (d # ds)))"

definition number :: "string \<Rightarrow> nat" where
  "number ds = foldl (\<lambda>n c. 10 * n + (of_char c - 48)) 0 (filter is_digit ds)"

definition py_int :: "string \<Rightarrow> int option" where
  "py_int s =
     (case strip s of
        [] \<Rightarrow> None
      | c # body \<Rightarrow>
          if c = CHR ''-'' then (if digits_ok body then Some (- int (number body)) else None)
          else if c = CHR ''+'' then (if digits_ok body then Some (int (number body)) else None)
          else if digits_ok (c # body) then Some (int (number (c # body))) else None)"

section \<open>download_file_from_gcs\<close>

definition permission_denied :: exc where
  "permission_denied =
     Exc PermissionError
       (''Authentication Error: You do not have permission to access this resource. ''
        @ ''Please check your credentials.'')"

definition missing_length_warning :: "string \<Rightarrow> string" where
  "missing_length_warning url =
     ''Warning: Content-length header is missing or zero in the response from '' @ url @ ''.''"

definition invalid_literal :: "string \<Rightarrow> exc" where
  "invalid_literal s =
     Exc ValueError (''invalid literal for int() with base 10: '' @ [CHR 0x27] @ s @ [CHR 0x27])"

text \<open>Line 58: \<^verbatim>\<open>int(response.headers.get("content-length", 0))\<close>.\<close>

definition total_size :: "response \<Rightarrow> exc + int" where
  "total_size response =
     (case content_length response of
        None \<Rightarrow> Inr 0
      | Some h \<Rightarrow> (case py_int h of None \<Rightarrow> Inl (invalid_literal h) | Some n \<Rightarrow> Inr n))"

text \<open>
  The progress bar only draws on the terminal and is left out. \<open>net\<close> is the transport.
  The file is opened before the first chunk is read; when the stream breaks off, the
  chunks delivered before are in the file and the exception is raised.
\<close>

definition download_file_from_gcs ::
  "transport \<Rightarrow> string \<Rightarrow> string \<Rightarrow> world \<Rightarrow> (exc + string) \<times> world" where
  "download_file_from_gcs net url output_path w =
     (if os_path_exists (fs w) output_path then (Inr output_path, w)
      else
        (let w1 = w\<lparr>requests := requests w @ [url]\<rparr> in
         case net url of
           Inl e \<Rightarrow> (Inl e, w1)
         | Inr response \<Rightarrow>
             if status_code response = 403 then (Inl permission_denied, w1)
             else
               (case total_size response of
                  Inl e \<Rightarrow> (Inl e, w1)
                | Inr total_size_in_bytes \<Rightarrow>
                    (let w2 = (if total_size_in_bytes = 0
                               then w1\<lparr>stdout := stdout w1 @ [missing_length_warning url]\<rparr>
                               else w1)
                     in case open_wb output_path
                               (concat (filter (\<lambda>chunk. chunk \<noteq> []) (chunks response)))
                               (fs w2) of
                          Inl e \<Rightarrow> (Inl e, w2)
                        | Inr root' \<Rightarrow>
                            (case stream_error response of
                               None \<Rightarrow> (Inr output_path, w2\<lparr>fs := root'\<rparr>)
                             | Some e \<Rightarrow> (Inl e, w2\<lparr>fs := root'\<rparr>))))))"

section \<open>download_files_from_huggingface\<close>

text \<open>
  \<^verbatim>\<open>snapshot_download\<close> of the hub client is a parameter: from the repository, the
  patterns to ignore, the cache directory and the world it gives a directory or raises,
  and leaves a world.
\<close>

type_synonym hub =
  "string \<Rightarrow> string list \<Rightarrow> string option \<Rightarrow> world \<Rightarrow> (exc + string) \<times> world"

definition download_files_from_huggingface ::
  "hub \<Rightarrow> string \<Rightarrow> string option \<Rightarrow> world \<Rightarrow> (exc + string) \<times> world" where
  "download_files_from_huggingface snapshot_download hf_source_repo cache_dir w =
     snapshot_download hf_source_repo [''model.safetensors'', ''pytorch_model.bin''] cache_dir w"

section \<open>decompress_to_cache\<close>

text \<open>
  A member of a tar archive: a directory or a regular file, with the name it has in the
  archive. The name is a path string; nothing keeps it from being absolute or from
  having \<^verbatim>\<open>..\<close> components.
\<close>

datatype member = MDir string | MFile string string

definition member_name :: "member \<Rightarrow> string" where
  "member_name m = (case m of MDir name \<Rightarrow> name | MFile name bytes \<Rightarrow> name)"

text \<open>
  What reading a file as a gzipped tar archive gives: the members that can be read, in
  order, and the exception at which reading stops, if it does. The reader is the
  parameter \<open>untar\<close>.
\<close>

record tar_result =
  members :: "member list"
  failure :: "exc option"

type_synonym tar_reader = "string \<Rightarrow> tar_result"

text \<open>
  Where a member goes: \<^verbatim>\<open>os.path.join(dest, name)\<close>, so an absolute name replaces the
  destination. No filter is applied to the names (line 115).
\<close>

definition target :: "path \<Rightarrow> string \<Rightarrow> path" where
  "target dest name = parts (joinpath (PPath False dest) name)"

text \<open>
  Extraction of one member: the directories above its target are created when they are
  missing; a directory member is created unless it is there already; a file member is
  written.
\<close>

definition extract_member :: "path \<Rightarrow> member \<Rightarrow> node \<Rightarrow> exc + node" where
  "extract_member dest m root =
     (case m of
        MDir name \<Rightarrow> makedirs_dots [] (target dest name) root
      | MFile name bytes \<Rightarrow>
          (if exists_dots root (butlast (target dest name))
           then write_file_dots (target dest name) bytes root
           else (case makedirs_dots [] (butlast (target dest name)) root of
                   Inl e \<Rightarrow> Inl e
                 | Inr root' \<Rightarrow> write_file_dots (target dest name) bytes root')))"

text \<open>
  \<^verbatim>\<open>tar.extractall(path=dest)\<close>: member after member, until one fails; what has
  been extracted by then stays.
\<close>

fun extractall :: "path \<Rightarrow> member list \<Rightarrow> node \<Rightarrow> exc option \<times> node" where
  "extractall dest [] root = (None, root)"
| "extractall dest (m # ms) root =
     (case extract_member dest m root of
        Inl e \<Rightarrow> (Some e, root)
      | Inr root' \<Rightarrow> extractall dest ms root')"

text \<open>The body of the \<^verbatim>\<open>try\<close>: open the archive and extract all of it.\<close>

definition open_and_extract :: "tar_reader \<Rightarrow> string \<Rightarrow> string \<Rightarrow> node \<Rightarrow> exc option \<times> node" where
  "open_and_extract untar targz_path cache_dir root =
     (case lookup root (os_path targz_path) of
        Some (File bytes) \<Rightarrow>
          (case extractall (os_path cache_dir) (members (untar bytes)) root of
             (Some e, root') \<Rightarrow> (Some e, root')
           | (None, root') \<Rightarrow> (failure (untar bytes), root'))
      | _ \<Rightarrow> (Some (os_error FileNotFoundError), root))"

definition decompress_error :: "string \<Rightarrow> exc \<Rightarrow> exc" where
  "decompress_error targz_path e =
     Exc ValueError (''An error occurred while decompressing '' @ targz_path @ '': '' @ msg e)"

definition decompress_to_cache ::
  "tar_reader \<Rightarrow> string \<Rightarrow> string \<Rightarrow> world \<Rightarrow> (exc + string) \<times> world" where
  "decompress_to_cache untar targz_path cache_dir w =
     (if \<not> os_path_isfile (fs w) targz_path
      then (Inl (Exc ValueError (targz_path @ '' does not exist or is not a file.'')), w)
      else if \<not> endswith targz_path ''.tar.gz''
      then (Inl (Exc ValueError (targz_path @ '' is not a .tar.gz file.'')), w)
      else
        (case open_and_extract untar targz_path cache_dir (fs w) of
           (None, root') \<Rightarrow> (Inr cache_dir, w\<lparr>fs := root'\<rparr>)
         | (Some e, root') \<Rightarrow>
             if issubclass (cls e) TarError then
               (if contains ''tmp'' cache_dir then
                  (case rmtree (os_path cache_dir) root' of
                     Inl e' \<Rightarrow> (Inl e', w\<lparr>fs := root'\<rparr>)
                   | Inr root'' \<Rightarrow> (Inl (decompress_error targz_path e), w\<lparr>fs := root''\<rparr>))
                else (Inl (decompress_error targz_path e), w\<lparr>fs := root'\<rparr>))
             else (Inl e, w\<lparr>fs := root'\<rparr>)))"

section \<open>retrieve_model_gcs\<close>

definition fast_model_name :: "string \<Rightarrow> string" where
  "fast_model_name model_name = ''fast-'' @ last (split_on CHR ''/'' model_name)"

definition cache_tmp_dir :: "string \<Rightarrow> ppath" where
  "cache_tmp_dir cache_dir = joinpath (Path cache_dir) ''tmp''"

definition model_tmp_dir :: "string \<Rightarrow> string \<Rightarrow> ppath" where
  "model_tmp_dir model_name cache_dir =
     joinpath (cache_tmp_dir cache_dir) (fast_model_name model_name)"

definition model_dir :: "string \<Rightarrow> string \<Rightarrow> ppath" where
  "model_dir model_name cache_dir = joinpath (Path cache_dir) (fast_model_name model_name)"

definition model_tar_gz :: "string \<Rightarrow> string \<Rightarrow> ppath" where
  "model_tar_gz model_name cache_dir =
     joinpath (Path cache_dir) (fast_model_name model_name @ ''.tar.gz'')"

text \<open>
  A statement of the body: it raises or not, and leaves a world. The statements run in
  order until one raises; \<open>run_steps\<close> gives the exception, if any, and the worlds
  passed through, the first being the one the run starts in.
\<close>

type_synonym step = "world \<Rightarrow> exc option \<times> world"

fun run_steps :: "step list \<Rightarrow> world \<Rightarrow> exc option \<times> world list" where
  "run_steps [] w = (None, [w])"
| "run_steps (s # ss) w =
     (case s w of
        (Some e, w') \<Rightarrow> (Some e, [w, w'])
      | (None, w') \<Rightarrow> (case run_steps ss w' of (r, tr) \<Rightarrow> (r, w # tr)))"

definition fs_step :: "(node \<Rightarrow> exc + node) \<Rightarrow> step" where
  "fs_step f w = (case f (fs w) of Inl e \<Rightarrow> (Some e, w) | Inr root' \<Rightarrow> (None, w\<lparr>fs := root'\<rparr>))"

definition call_step :: "(world \<Rightarrow> (exc + 'a) \<times> world) \<Rightarrow> step" where
  "call_step f w = (case f w of (Inl e, w') \<Rightarrow> (Some e, w') | (Inr v, w') \<Rightarrow> (None, w'))"

definition staging_missing :: "string \<Rightarrow> string \<Rightarrow> exc" where
  "staging_missing model_name cache_dir =
     Exc AssertionError (''Could not find '' @ str (model_tmp_dir model_name cache_dir)
                         @ '' in '' @ str (cache_tmp_dir cache_dir))"

text \<open>The statements after the cache check, lines 138 to 155 of the source.\<close>

definition remove_stale_step :: "string \<Rightarrow> string \<Rightarrow> step" where
  "remove_stale_step model_name cache_dir w =
     (if exists (fs w) (parts (model_tmp_dir model_name cache_dir))
      then fs_step (rmtree (parts (model_tmp_dir model_name cache_dir))) w
      else (None, w))"

definition mkdir_step :: "string \<Rightarrow> step" where
  "mkdir_step cache_dir = fs_step (makedirs (parts (cache_tmp_dir cache_dir)))"

definition download_step :: "transport \<Rightarrow> string \<Rightarrow> string \<Rightarrow> string \<Rightarrow> step" where
  "download_step net model_name source_url cache_dir =
     call_step (download_file_from_gcs net source_url (str (model_tar_gz model_name cache_dir)))"

definition decompress_step :: "tar_reader \<Rightarrow> string \<Rightarrow> string \<Rightarrow> step" where
  "decompress_step untar model_name cache_dir =
     call_step (decompress_to_cache untar (str (model_tar_gz model_name cache_dir))
                  (str (cache_tmp_dir cache_dir)))"

definition assert_step :: "string \<Rightarrow> string \<Rightarrow> step" where
  "assert_step model_name cache_dir w =
     (if exists (fs w) (parts (model_tmp_dir model_name cache_dir)) then (None, w)
      else (Some (staging_missing model_name cache_dir), w))"

definition unlink_step :: "string \<Rightarrow> string \<Rightarrow> step" where
  "unlink_step model_name cache_dir = fs_step (unlink (parts (model_tar_gz model_name cache_dir)))"

definition rename_step :: "string \<Rightarrow> string \<Rightarrow> step" where
  "rename_step model_name cache_dir =
     fs_step (rename (parts (model_tmp_dir model_name cache_dir))
                (parts (model_dir model_name cache_dir)))"

definition gcs_steps :: "transport \<Rightarrow> tar_reader \<Rightarrow> string \<Rightarrow> string \<Rightarrow> string \<Rightarrow> step list" where
  "gcs_steps net untar model_name source_url cache_dir =
     [remove_stale_step model_name cache_dir,
      mkdir_step cache_dir,
      download_step net model_name source_url cache_dir,
      decompress_step untar model_name cache_dir,
      assert_step model_name cache_dir,
      unlink_step model_name cache_dir,
      rename_step model_name cache_dir]"

text \<open>The cache check of line 135.\<close>

definition cache_hit :: "string \<Rightarrow> string \<Rightarrow> world \<Rightarrow> bool" where
  "cache_hit model_name cache_dir w =
     (exists (fs w) (parts (model_dir model_name cache_dir))
      \<and> length (glob_star (fs w) (parts (model_dir model_name cache_dir))) > 0)"

definition retrieve_model_gcs_trace ::
  "transport \<Rightarrow> tar_reader \<Rightarrow> string \<Rightarrow> string \<Rightarrow> string \<Rightarrow> world \<Rightarrow> exc option \<times> world list" where
  "retrieve_model_gcs_trace net untar model_name source_url cache_dir w =
     (if cache_hit model_name cache_dir w then (None, [w])
      else run_steps (gcs_steps net untar model_name source_url cache_dir) w)"

definition retrieve_model_gcs ::
  "transport \<Rightarrow> tar_reader \<Rightarrow> string \<Rightarrow> string \<Rightarrow> string \<Rightarrow> world \<Rightarrow> (exc + ppath) \<times> world" where
  "retrieve_model_gcs net untar model_name source_url cache_dir w =
     (case retrieve_model_gcs_trace net untar model_name source_url cache_dir w of
        (None, tr) \<Rightarrow> (Inr (model_dir model_name cache_dir), last tr)
      | (Some e, tr) \<Rightarrow> (Inl e, last tr))"

section \<open>download_model\<close>

text \<open>
  The model description: the value under \<^verbatim>\<open>"model"\<close> and the dictionary under
  \<^verbatim>\<open>"sources"\<close>, each of which may be missing.
\<close>

record descriptor =
  model :: "string option"
  sources :: "(string \<rightharpoonup> string) option"

definition source :: "descriptor \<Rightarrow> string \<Rightarrow> string option" where
  "source m k = (case sources m of None \<Rightarrow> None | Some d \<Rightarrow> d k)"

definition model_key :: "descriptor \<Rightarrow> exc + string" where
  "model_key m = (case model m of None \<Rightarrow> Inl (Exc KeyError ([CHR 0x27] @ ''model'' @ [CHR 0x27]))
                  | Some name \<Rightarrow> Inr name)"

definition fallback_message :: "exc \<Rightarrow> string" where
  "fallback_message e =
     ''Could not download model from HuggingFace: '' @ msg e @ ''Falling back to other sources.''"

definition no_source :: "string \<Rightarrow> exc" where
  "no_source name = Exc ValueError (''Could not download model '' @ name @ '' from any source.'')"

text \<open>
  The repository attempt of lines 188 to 192: it returns (\<open>Some\<close> of the result or of
  the exception that propagates) or falls through (\<open>None\<close>).
\<close>

definition hf_attempt ::
  "hub \<Rightarrow> descriptor \<Rightarrow> ppath \<Rightarrow> world \<Rightarrow> (exc + ppath) option \<times> world" where
  "hf_attempt snapshot_download m cache_dir w =
     (case source m ''hf'' of
        None \<Rightarrow> (None, w)
      | Some hf_source \<Rightarrow>
          if hf_source = [] then (None, w)
          else (case download_files_from_huggingface snapshot_download hf_source
                       (Some (str cache_dir)) w of
                  (Inr d, w') \<Rightarrow> (Some (Inr (Path d)), w')
                | (Inl e, w') \<Rightarrow>
                    if caught_by [EnvironmentError, RepositoryNotFoundError, ValueError] e
                    then (None, w'\<lparr>errlog := errlog w' @ [fallback_message e]\<rparr>)
                    else (Some (Inl e), w')))"

definition download_model ::
  "hub \<Rightarrow> transport \<Rightarrow> tar_reader \<Rightarrow> descriptor \<Rightarrow> ppath \<Rightarrow> world \<Rightarrow> (exc + ppath) \<times> world" where
  "download_model snapshot_download net untar m cache_dir w =
     (case hf_attempt snapshot_download m cache_dir w of
        (Some r, w') \<Rightarrow> (r, w')
      | (None, w') \<Rightarrow>
          (case source m ''url'' of
             Some (u # us) \<Rightarrow>
               (case model_key m of
                  Inl e \<Rightarrow> (Inl e, w')
                | Inr name \<Rightarrow> retrieve_model_gcs net untar name (u # us) (str cache_dir) w')
           | _ \<Rightarrow>
               (case model_key m of
                  Inl e \<Rightarrow> (Inl e, w')
                | Inr name \<Rightarrow> (Inl (no_source name), w'))))"

section \<open>Example inputs\<close>

text \<open>
  A cache with a model directory in the nested layout, in which the name
  \<^verbatim>\<open>model.onnx\<close> belongs to a directory and \<^verbatim>\<open>weights.onnx\<close> to a special entry at
  the top and to a regular file further down.
\<close>

definition example_tree :: node where
  "example_tree = Dir [(''model'', Dir [(''model.onnx'', Dir [(''x'', Special)]),
                                     (''weights.onnx'', Special),
                                     (''onnx'', Dir [(''weights.onnx'', File ''W''), (''model_optimized.onnx'', File ''M'')])]),
                    (''notes'', File ''n'')]"

definition example_world :: world where
  "example_world =
     \<lparr>fs = Dir [(''cache'', Dir [])], requests = [], stdout = [], errlog = []\<rparr>"

definition example_net :: "int \<Rightarrow> transport" where
  "example_net status url =
     Inr \<lparr>status_code = status, content_length = None, chunks = [''ab'', [], ''c''],
          stream_error = None\<rparr>"

definition example_hub :: "exc \<Rightarrow> hub" where
  "example_hub e repo ignore_patterns cache_dir w = (Inl e, w)"

definition example_descriptor :: descriptor where
  "example_descriptor =
     \<lparr>model = Some ''org/m'',
      sources = Some [''url'' \<mapsto> ''https://host/fast-m.tar.gz'', ''hf'' \<mapsto> ''org/m-onnx'']\<rparr>"

definition example_cached_world :: world where
  "example_cached_world =
     \<lparr>fs = Dir [(''cache'', Dir [(''fast-m'', Dir [(''model.onnx'', File ''x'')])])],
      requests = [], stdout = [], errlog = []\<rparr>"

definition example_untar :: tar_reader where
  "example_untar bytes =
     (if bytes = ''abc''
      then \<lparr>members = [MDir ''fast-m'', MFile ''fast-m/model.onnx'' ''weights''],
            failure = None\<rparr>
      else \<lparr>members = [MDir ''fast-m''],
            failure = Some (Exc (Derived ''ReadError'' TarError) ''unexpected end of data'')\<rparr>)"


definition example_empty_untar :: tar_reader where
  "example_empty_untar bytes = \<lparr>members = [MDir ''fast-m''], failure = None\<rparr>"




section \<open>Auxiliary notions for the proofs\<close>

text \<open>
  A plain path component; two paths neither of which lies at or below the other; the
  statements of the acquisition that come before the rename.
\<close>

definition plain :: "string \<Rightarrow> bool" where
  "plain c = (proper c \<and> CHR ''/'' \<notin> set c)"

definition apart :: "path \<Rightarrow> path \<Rightarrow> bool" where
  "apart p q = (\<not> prefix p q \<and> \<not> prefix q p)"

text \<open>
  A member name that stays below the extraction directory: relative and without
  \<^verbatim>\<open>..\<close>; a reader all of whose members have such names.
\<close>

definition safe_name :: "string \<Rightarrow> bool" where
  "safe_name name = (\<not> prefix ''/'' name \<and> ''..'' \<notin> set (parts (Path name)))"

definition safe_reader :: "tar_reader \<Rightarrow> bool" where
  "safe_reader untar = (\<forall>bytes. \<forall>m \<in> set (members (untar bytes)). safe_name (member_name m))"



section \<open>Properties of the recursive search\<close>


lemma lookup_append:
  "lookup n (d @ r) = (case lookup n d of None \<Rightarrow> None | Some m \<Rightarrow> lookup m r)"
  by (induction d arbitrary: n) (auto split: node.splits option.splits)

lemma rglob_complete:
  "lookup n r = Some m \<Longrightarrow> r \<noteq> [] \<Longrightarrow> fm pat (last r) \<Longrightarrow> p @ r \<in> set (rglob fm pat p n)"
proof (induction r arbitrary: n p)
  case Nil
  then show ?case by simp
next
  case (Cons c cs)
  from Cons.prems(1) obtain es k where n: "n = Dir es" and k: "map_of es c = Some k"
    and l: "lookup k cs = Some m"
    by (auto split: node.splits option.splits)
  from k have mem: "(c, k) \<in> set es" by (rule map_of_SomeD)
  show ?case
  proof (cases "cs = []")
    case True
    with Cons.prems(3) have "fm pat c" by simp
    with mem True n show ?thesis by force
  next
    case False
    with Cons.prems(3) have "fm pat (last cs)" by simp
    from Cons.IH[OF l False this] have "(p @ [c]) @ cs \<in> set (rglob fm pat (p @ [c]) k)" .
    with mem n show ?thesis by force
  qed
qed

lemma rglob_sound:
  "q \<in> set (rglob fm pat p n) \<Longrightarrow> \<exists>r. q = p @ r \<and> r \<noteq> [] \<and> fm pat (last r)"
proof (induction fm pat p n arbitrary: q rule: rglob.induct)
  case (1 fm pat p es)
  from "1.prems" consider
    (here) e where "e \<in> set es" "fm pat (fst e)" "q = p @ [fst e]"
  | (below) e where "e \<in> set es" "q \<in> set (rglob fm pat (p @ [fst e]) (snd e))"
    by auto
  then show ?case
  proof cases
    case here
    then show ?thesis by auto
  next
    case below
    from "1.IH"[OF below] obtain r where "q = (p @ [fst e]) @ r" "r \<noteq> []" "fm pat (last r)"
      by blast
    then show ?thesis by (intro exI[of _ "fst e # r"]) simp
  qed
qed simp_all

lemma file_paths_iff:
  assumes "is_dir root d"
  shows "q \<in> set (file_paths fm root d c) \<longleftrightarrow> (\<exists>r. q = d @ r \<and> file_match fm root d c r)"
proof -
  from assms obtain es where d: "lookup root d = Some (Dir es)"
    by (auto simp: is_dir_def split: option.splits node.splits)
  show ?thesis
  proof
    assume "q \<in> set (file_paths fm root d c)"
    then have "q \<in> set (rglob fm c d (Dir es))" and f: "is_file root q"
      by (auto simp: file_paths_def d)
    from rglob_sound[OF this(1)] f show "\<exists>r. q = d @ r \<and> file_match fm root d c r"
      by (auto simp: file_match_def)
  next
    assume "\<exists>r. q = d @ r \<and> file_match fm root d c r"
    then obtain r where q: "q = d @ r" and r: "r \<noteq> []" "fm c (last r)" and f: "is_file root (d @ r)"
      by (auto simp: file_match_def)
    from f obtain x where "lookup (Dir es) r = Some (File x)"
      by (auto simp: is_file_def lookup_append d split: option.splits node.splits)
    from rglob_complete[where fm=fm and pat=c and p=d, OF this r] f show "q \<in> set (file_paths fm root d c)"
      by (simp add: file_paths_def d q)
  qed
qed

lemma locate_loop_None:
  "locate_loop fm root d names = None \<longleftrightarrow> (\<forall>c \<in> set names. file_paths fm root d c = [])"
  by (induction names) (auto split: list.splits)

lemma locate_loop_Some:
  "locate_loop fm root d names = Some q \<Longrightarrow>
     \<exists>i < length names. q \<in> set (file_paths fm root d (names ! i))
        \<and> (\<forall>j < i. file_paths fm root d (names ! j) = [])"
proof (induction names)
  case Nil
  then show ?case by simp
next
  case (Cons c cs)
  show ?case
  proof (cases "file_paths fm root d c")
    case Nil
    with Cons obtain i where i: "i < length cs" "q \<in> set (file_paths fm root d (cs ! i))"
      "\<forall>j < i. file_paths fm root d (cs ! j) = []" by auto
    show ?thesis
    proof (intro exI[of _ "Suc i"] conjI allI impI)
      fix j assume "j < Suc i"
      with Nil i(3) show "file_paths fm root d ((c # cs) ! j) = []" by (cases j) auto
    qed (use i in auto)
  next
    case (Cons q' qs)
    with Cons.prems show ?thesis by (intro exI[of _ 0]) auto
  qed
qed


lemma no_file_match_iff:
  "is_dir root d \<Longrightarrow> (\<forall>r. \<not> file_match fm root d c r) \<longleftrightarrow> file_paths fm root d c = []"
proof -
  assume d: "is_dir root d"
  have "file_paths fm root d c = [] \<longleftrightarrow> (\<forall>q. q \<notin> set (file_paths fm root d c))"
    by (cases "file_paths fm root d c") auto
  also have "\<dots> \<longleftrightarrow> (\<forall>r. \<not> file_match fm root d c r)"
    by (auto simp: file_paths_iff[OF d])
  finally show ?thesis by simp
qed

lemma not_a_directory_neq: "not_a_directory md \<noteq> could_not_find md' names"
  by (simp add: not_a_directory_def could_not_find_def)

text \<open>
  Claim C7. When the path is not a directory, \<^verbatim>\<open>locate_model_file\<close> fails with the
  not-a-directory error, which differs from the error of a failed search. When it is a
  directory and no candidate matches a regular file anywhere below it, the search fails
  with the error that lists all the candidates, in order, joined by commas. When the
  candidate \<open>names ! i\<close> matches a regular file somewhere below the directory and no
  earlier candidate matches one, the function returns a regular file below the directory
  that matches \<open>names ! i\<close>. The walk is recursive: the match may be at any depth
  (\<open>r\<close> is any non-empty relative path).
\<close>

theorem locate_model_file_earliest:
  "(\<not> is_dir root (parts md) \<longrightarrow>
      locate_model_file fm root md names = Inl (not_a_directory md)
      \<and> not_a_directory md \<noteq> could_not_find md names)
   \<and> (is_dir root (parts md) \<and> (\<forall>c \<in> set names. \<forall>r. \<not> file_match fm root (parts md) c r) \<longrightarrow>
      locate_model_file fm root md names =
        Inl (Exc ValueError (''Could not find either of '' @ join '', '' names
                             @ '' in '' @ str md)))
   \<and> (is_dir root (parts md) \<and> i < length names
        \<and> file_match fm root (parts md) (names ! i) rel
        \<and> (\<forall>j < i. \<forall>r. \<not> file_match fm root (parts md) (names ! j) r) \<longrightarrow>
      (\<exists>r. locate_model_file fm root md names = Inr (PPath (anchored md) (parts md @ r))
           \<and> file_match fm root (parts md) (names ! i) r))"
proof (intro conjI impI)
  assume "\<not> is_dir root (parts md)"
  then show "locate_model_file fm root md names = Inl (not_a_directory md)"
    by (simp add: locate_model_file_def)
  show "not_a_directory md \<noteq> could_not_find md names"
    by (rule not_a_directory_neq)
next
  assume a: "is_dir root (parts md) \<and> (\<forall>c \<in> set names. \<forall>r. \<not> file_match fm root (parts md) c r)"
  then have "\<forall>c \<in> set names. file_paths fm root (parts md) c = []"
    using no_file_match_iff[of root "parts md" fm] by blast
  then have "locate_loop fm root (parts md) names = None"
    by (simp add: locate_loop_None)
  with a show "locate_model_file fm root md names =
        Inl (Exc ValueError (''Could not find either of '' @ join '', '' names
                             @ '' in '' @ str md))"
    by (simp add: locate_model_file_def could_not_find_def)
next
  assume a: "is_dir root (parts md) \<and> i < length names
        \<and> file_match fm root (parts md) (names ! i) rel
        \<and> (\<forall>j < i. \<forall>r. \<not> file_match fm root (parts md) (names ! j) r)"
  then have d: "is_dir root (parts md)" and i: "i < length names"
    and m: "file_match fm root (parts md) (names ! i) rel"
    and e: "\<forall>j < i. \<forall>r. \<not> file_match fm root (parts md) (names ! j) r"
    by blast+
  from m have ne: "file_paths fm root (parts md) (names ! i) \<noteq> []"
    using no_file_match_iff[OF d, of fm "names ! i"] by blast
  with i have "locate_loop fm root (parts md) names \<noteq> None"
    by (auto simp: locate_loop_None)
  then obtain q where q: "locate_loop fm root (parts md) names = Some q" by blast
  from locate_loop_Some[OF q] obtain k where k: "k < length names"
    "q \<in> set (file_paths fm root (parts md) (names ! k))"
    "\<forall>j < k. file_paths fm root (parts md) (names ! j) = []" by blast
  have "k = i"
  proof (rule ccontr)
    assume "k \<noteq> i"
    then consider "k < i" | "i < k" by linarith
    then show False
    proof cases
      case 1
      with e have "\<forall>r. \<not> file_match fm root (parts md) (names ! k) r" by blast
      with k(2) show False using no_file_match_iff[OF d, of fm "names ! k"] by auto
    next
      case 2
      with k(3) ne show False by blast
    qed
  qed
  with k(2) obtain r where "q = parts md @ r" "file_match fm root (parts md) (names ! i) r"
    using file_paths_iff[OF d] by blast
  with q d show "\<exists>r. locate_model_file fm root md names = Inr (PPath (anchored md) (parts md @ r))
           \<and> file_match fm root (parts md) (names ! i) r"
    by (auto simp: locate_model_file_def)
qed

lemma locate_loop_skip:
  "file_paths fm root d c = [] \<Longrightarrow>
     locate_loop fm root d (pre @ c # post) = locate_loop fm root d (pre @ post)"
  by (induction pre) (auto split: list.splits)

lemma locate_loop_is_file:
  "locate_loop fm root d names = Some q \<Longrightarrow> is_file root q"
proof -
  assume "locate_loop fm root d names = Some q"
  from locate_loop_Some[OF this] obtain i where "q \<in> set (file_paths fm root d (names ! i))"
    by blast
  then show ?thesis by (simp add: file_paths_def)
qed

text \<open>
  Claim C10. For a directory, whatever \<^verbatim>\<open>locate_model_file\<close> returns is a regular file,
  never a directory. A candidate \<open>c\<close> that only entries other than regular files match
  (directories, special entries), or nothing at all, is passed over: the search with
  \<open>c\<close> among the candidates returns exactly the files that the search without it returns,
  so the later candidates still match.
\<close>

theorem locate_model_file_regular_only:
  assumes "is_dir root (parts md)"
  shows "(\<forall>q. locate_model_file fm root md names = Inr q \<longrightarrow>
            is_file root (parts q) \<and> \<not> is_dir root (parts q))
       \<and> ((\<forall>r. r \<noteq> [] \<and> fm c (last r) \<longrightarrow> \<not> is_file root (parts md @ r)) \<longrightarrow>
            (\<forall>q. locate_model_file fm root md (pre @ c # post) = Inr q
                 \<longleftrightarrow> locate_model_file fm root md (pre @ post) = Inr q))"
proof (intro conjI allI impI)
  fix q assume "locate_model_file fm root md names = Inr q"
  with assms obtain q' where "locate_loop fm root (parts md) names = Some q'" "parts q = q'"
    by (auto simp: locate_model_file_def split: option.splits)
  then have f: "is_file root (parts q)" using locate_loop_is_file by blast
  then show "is_file root (parts q)" .
  from f show "\<not> is_dir root (parts q)"
    by (auto simp: is_file_def is_dir_def split: option.splits node.splits)
next
  fix q assume "\<forall>r. r \<noteq> [] \<and> fm c (last r) \<longrightarrow> \<not> is_file root (parts md @ r)"
  then have "\<forall>r. \<not> file_match fm root (parts md) c r" by (auto simp: file_match_def)
  then have "file_paths fm root (parts md) c = []" using no_file_match_iff[OF assms] by blast
  from locate_loop_skip[OF this]
  show "locate_model_file fm root md (pre @ c # post) = Inr q
                 \<longleftrightarrow> locate_model_file fm root md (pre @ post) = Inr q"
    using assms by (simp add: locate_model_file_def split: option.splits)
qed

lemmas path_eval = Path_def proper_def str_def joinpath_def os_path_def
lemmas fs_eval = is_dir_def is_file_def exists_def os_path_exists_def os_path_isfile_def

theorem locate_model_file_earliest_witness:
  "is_dir example_tree [''model'']
   \<and> file_match (=) example_tree [''model''] ''weights.onnx'' [''onnx'', ''weights.onnx'']
   \<and> \<not> (\<exists>j < 1. \<exists>r. file_match (=) example_tree [''model''] ([''model.onnx'', ''weights.onnx''] ! j) r)
   \<and> (\<exists>r. locate_model_file (=) example_tree (Path ''model'') [''model.onnx'', ''weights.onnx'']
            = Inr (PPath False ([''model''] @ r))
          \<and> file_match (=) example_tree [''model''] ''weights.onnx'' r)
   \<and> \<not> (\<exists>c \<in> set [''a.onnx'', ''b.onnx'']. \<exists>r. file_match (=) example_tree [''model''] c r)
   \<and> locate_model_file (=) example_tree (Path ''model'') [''a.onnx'', ''b.onnx'']
       = Inl (Exc ValueError ''Could not find either of a.onnx, b.onnx in model'')
   \<and> \<not> is_dir example_tree [''notes'']
   \<and> locate_model_file (=) example_tree (Path ''notes'') [''a.onnx''] = Inl (not_a_directory (Path ''notes''))"
proof -
  have p: "Path ''model'' = PPath False [''model'']" "Path ''notes'' = PPath False [''notes'']"
    by (simp_all add: path_eval)
  have d: "is_dir example_tree [''model'']"
    by (simp add: example_tree_def fs_eval)
  have m: "file_match (=) example_tree [''model''] ''weights.onnx'' [''onnx'', ''weights.onnx'']"
    by (simp add: file_match_def example_tree_def fs_eval)
  have e: "\<forall>j < 1. \<forall>r. \<not> file_match (=) example_tree [''model''] ([''model.onnx'', ''weights.onnx''] ! j) r"
    using no_file_match_iff[OF d, of "(=)" "''model.onnx''"]
    by (simp add: file_paths_def example_tree_def fs_eval)
  have n: "\<forall>c \<in> set [''a.onnx'', ''b.onnx'']. \<forall>r. \<not> file_match (=) example_tree [''model''] c r"
    using no_file_match_iff[OF d, of "(=)" "''a.onnx''"] no_file_match_iff[OF d, of "(=)" "''b.onnx''"]
    by (simp add: file_paths_def example_tree_def fs_eval)
  have f: "\<not> is_dir example_tree [''notes'']"
    by (simp add: example_tree_def fs_eval)
  note t1 = locate_model_file_earliest[where root=example_tree and md="PPath False [''model'']"
      and fm="(=)" and names="[''model.onnx'', ''weights.onnx'']" and i=1
      and rel="[''onnx'', ''weights.onnx'']"]
  note t2 = locate_model_file_earliest[where root=example_tree and md="PPath False [''model'']"
      and fm="(=)" and names="[''a.onnx'', ''b.onnx'']"]
  note t3 = locate_model_file_earliest[where root=example_tree and md="PPath False [''notes'']"
      and fm="(=)" and names="[''a.onnx'']"]
  from t1 d m e have 1: "\<exists>r. locate_model_file (=) example_tree (Path ''model'') [''model.onnx'', ''weights.onnx'']
            = Inr (PPath False ([''model''] @ r))
          \<and> file_match (=) example_tree [''model''] ''weights.onnx'' r"
    by (simp add: p)
  from t2 d n have 2: "locate_model_file (=) example_tree (Path ''model'') [''a.onnx'', ''b.onnx'']
       = Inl (Exc ValueError ''Could not find either of a.onnx, b.onnx in model'')"
    by (simp add: p str_def)
  from t3 f have 3: "locate_model_file (=) example_tree (Path ''notes'') [''a.onnx''] = Inl (not_a_directory (Path ''notes''))"
    by (simp add: p)
  from d m e 1 n 2 f 3 show ?thesis by blast
qed

theorem locate_model_file_regular_only_witness:
  "is_dir example_tree [''model'']
   \<and> is_dir example_tree [''model'', ''model.onnx'']
   \<and> \<not> (\<exists>r. r \<noteq> [] \<and> ''model.onnx'' = last r \<and> is_file example_tree ([''model''] @ r))
   \<and> locate_model_file (=) example_tree (Path ''model'') [''model.onnx'', ''model_optimized.onnx'']
       = Inr (PPath False [''model'', ''onnx'', ''model_optimized.onnx''])
   \<and> is_file example_tree [''model'', ''onnx'', ''model_optimized.onnx'']"
proof -
  have p: "Path ''model'' = PPath False [''model'']"
    by (simp add: path_eval)
  have d: "is_dir example_tree [''model'']"
    by (simp add: example_tree_def fs_eval)
  have d2: "is_dir example_tree [''model'', ''model.onnx'']"
    by (simp add: example_tree_def fs_eval)
  have "\<forall>r. \<not> file_match (=) example_tree [''model''] ''model.onnx'' r"
    using no_file_match_iff[OF d, of "(=)" "''model.onnx''"]
    by (simp add: file_paths_def example_tree_def fs_eval)
  then have h: "\<forall>r. r \<noteq> [] \<and> ''model.onnx'' = last r \<longrightarrow> \<not> is_file example_tree ([''model''] @ r)"
    by (auto simp: file_match_def)
  have l: "locate_model_file (=) example_tree (PPath False [''model'']) ([] @ [''model_optimized.onnx''])
       = Inr (PPath False [''model'', ''onnx'', ''model_optimized.onnx''])"
    by (simp add: locate_model_file_def file_paths_def example_tree_def fs_eval)
  note t = locate_model_file_regular_only[where root=example_tree and md="PPath False [''model'']"
      and fm="(=)" and names="[''model.onnx'', ''model_optimized.onnx'']" and c="''model.onnx''"
      and pre="[]" and post="[''model_optimized.onnx'']"]
  from t d h l have r: "locate_model_file (=) example_tree (Path ''model'') [''model.onnx'', ''model_optimized.onnx'']
       = Inr (PPath False [''model'', ''onnx'', ''model_optimized.onnx''])"
    by (simp add: p)
  with t d have "is_file example_tree [''model'', ''onnx'', ''model_optimized.onnx'']"
    by (simp add: p)
  with d d2 h r show ?thesis by blast
qed

section \<open>Properties of the file system operations and of the download\<close>



lemma lookup_modify_same:
  "p \<noteq> [] \<Longrightarrow> is_dir n (butlast p) \<Longrightarrow> lookup (modify p f n) p = f (lookup n p)"
proof (induction p arbitrary: n)
  case Nil
  then show ?case by simp
next
  case (Cons c cs)
  from Cons.prems obtain es where n: "n = Dir es"
    by (cases n; cases "cs = []") (auto simp: is_dir_def)
  show ?case
  proof (cases "cs = []")
    case True
    then show ?thesis
      by (auto simp: n update_conv' delete_conv' split: option.splits)
  next
    case False
    with Cons.prems n obtain m where m: "map_of es c = Some m" and d: "is_dir m (butlast cs)"
      by (auto simp: is_dir_def split: option.splits)
    from Cons.IH[OF False d] False m show ?thesis
      by (simp add: n update_conv')
  qed
qed

lemma lookup_modify_frame:
  "\<not> prefix p q \<Longrightarrow> \<not> prefix q p \<Longrightarrow> lookup (modify p f n) q = lookup n q"
proof (induction p arbitrary: n q)
  case Nil
  then show ?case by simp
next
  case (Cons c cs)
  from Cons.prems obtain d ds where q: "q = d # ds" by (cases q) auto
  show ?case
  proof (cases n)
    case (Dir es)
    show ?thesis
    proof (cases "d = c")
      case True
      with Cons.prems q have inc: "\<not> prefix cs ds" "\<not> prefix ds cs" by auto
      then have ne: "cs \<noteq> []" by auto
      show ?thesis
      proof (cases "map_of es c")
        case None
        with Dir ne show ?thesis by simp
      next
        case (Some m)
        with Cons.IH[OF inc, of m] Dir ne True q show ?thesis
          by (simp add: update_conv')
      qed
    next
      case False
      then show ?thesis
        by (auto simp: Dir q update_conv' delete_conv' split: option.splits)
    qed
  qed simp_all
qed

lemma lookup_modify_below:
  "p \<noteq> [] \<Longrightarrow> is_dir n (butlast p) \<Longrightarrow>
   lookup (modify p f n) (p @ r) = (case f (lookup n p) of None \<Rightarrow> None | Some m \<Rightarrow> lookup m r)"
  by (simp add: lookup_append[of _ p r] lookup_modify_same)

lemma lookup_put_same:
  "p \<noteq> [] \<Longrightarrow> is_dir n (butlast p) \<Longrightarrow> lookup (put p x n) p = Some x"
  by (simp add: put_def lookup_modify_same)


lemma concat_nonempty_chunks: "concat (filter (\<lambda>chunk. chunk \<noteq> []) xs) = concat xs"
  by (induction xs) auto


text \<open>
  Claim C6. When the destination does not exist and the transport answers with status
  403, \<^verbatim>\<open>download_file_from_gcs\<close> raises the \<^verbatim>\<open>PermissionError\<close> with the credentials
  hint (its class is not that of a transport error), after the one request; the file
  system is left as it was, so no destination file has been written.
\<close>

theorem download_forbidden_raises_permission_error:
  assumes "\<not> os_path_exists (fs w) output_path"
    and "net url = Inr r"
    and "status_code r = 403"
  shows "download_file_from_gcs net url output_path w
           = (Inl permission_denied, w\<lparr>requests := requests w @ [url]\<rparr>)
       \<and> cls permission_denied = PermissionError
       \<and> msg permission_denied =
           ''Authentication Error: You do not have permission to access this resource. Please check your credentials.''
       \<and> fs (snd (download_file_from_gcs net url output_path w)) = fs w
       \<and> \<not> os_path_exists (fs (snd (download_file_from_gcs net url output_path w))) output_path"
  using assms by (simp add: download_file_from_gcs_def permission_denied_def)



theorem download_forbidden_raises_permission_error_witness:
  "\<not> os_path_exists (fs example_world) ''cache/m.tar.gz''
   \<and> example_net 403 ''u''
       = Inr \<lparr>status_code = 403, content_length = None, chunks = [''ab'', [], ''c''],
              stream_error = None\<rparr>
   \<and> download_file_from_gcs (example_net 403) ''u'' ''cache/m.tar.gz'' example_world
       = (Inl permission_denied, example_world\<lparr>requests := [''u'']\<rparr>)
   \<and> cls permission_denied = PermissionError
   \<and> \<not> os_path_exists (fs (snd (download_file_from_gcs (example_net 403) ''u'' ''cache/m.tar.gz'' example_world))) ''cache/m.tar.gz''"
proof -
  have a: "\<not> os_path_exists (fs example_world) ''cache/m.tar.gz''"
    by code_simp
  have b: "example_net 403 ''u''
      = Inr \<lparr>status_code = 403, content_length = None, chunks = [''ab'', [], ''c''],
             stream_error = None\<rparr>"
    by (simp add: example_net_def)
  have c: "status_code \<lparr>status_code = 403, content_length = None, chunks = [''ab'', [], ''c''],
             stream_error = None\<rparr> = 403"
    by simp
  have r: "requests example_world = []" by (simp add: example_world_def)
  from download_forbidden_raises_permission_error[where net="example_net 403" and url="''u''", OF a b c] a b r show ?thesis by simp
qed


section \<open>Properties of the fallback between the sources\<close>

lemma caught_by_iff:
  "caught_by [EnvironmentError, RepositoryNotFoundError, ValueError] e \<longleftrightarrow>
     issubclass (cls e) EnvironmentError \<or> issubclass (cls e) RepositoryNotFoundError
     \<or> issubclass (cls e) ValueError"
  by (simp add: caught_by_def)

text \<open>
  Claim C4. For a description with a repository source, an archive source and a name:
  the repository is tried first, in the world the call starts in. When that attempt
  raises an \<^verbatim>\<open>EnvironmentError\<close>, a \<^verbatim>\<open>RepositoryNotFoundError\<close> or a
  \<^verbatim>\<open>ValueError\<close> (or an exception of a subclass), the failure is written to the error
  log and not raised, and the outcome of \<^verbatim>\<open>download_model\<close> is the outcome of
  \<^verbatim>\<open>retrieve_model_gcs\<close> on the archive source, success or failure, as it is.
\<close>

theorem download_model_falls_back:
  assumes "source m ''hf'' = Some hf" and "hf \<noteq> []"
    and "source m ''url'' = Some url" and "url \<noteq> []"
    and "model m = Some name"
    and "snapshot_download hf [''model.safetensors'', ''pytorch_model.bin''] (Some (str cache_dir)) w
           = (Inl e, w')"
    and "issubclass (cls e) EnvironmentError \<or> issubclass (cls e) RepositoryNotFoundError
         \<or> issubclass (cls e) ValueError"
  shows "download_model snapshot_download net untar m cache_dir w
           = retrieve_model_gcs net untar name url (str cache_dir)
               (w'\<lparr>errlog := errlog w' @ [fallback_message e]\<rparr>)"
proof -
  from assms(7) have c: "caught_by [EnvironmentError, RepositoryNotFoundError, ValueError] e"
    by (simp add: caught_by_iff)
  from assms(1,2,6) c have "hf_attempt snapshot_download m cache_dir w
      = (None, w'\<lparr>errlog := errlog w' @ [fallback_message e]\<rparr>)"
    by (simp add: hf_attempt_def download_files_from_huggingface_def)
  with assms(3,4,5) show ?thesis
    by (cases url) (simp_all add: download_model_def model_key_def)
qed

text \<open>
  Claim C3, as amended. When the repository attempt raises an exception whose class is
  neither \<^verbatim>\<open>EnvironmentError\<close>, \<^verbatim>\<open>RepositoryNotFoundError\<close> or \<^verbatim>\<open>ValueError\<close> nor a
  subclass of one of them, \<^verbatim>\<open>download_model\<close> raises that very exception and leaves the
  world as the repository attempt left it: the archive source is not tried, whatever it
  is. A \<^verbatim>\<open>PermissionError\<close> is not such an exception: it is an \<^verbatim>\<open>OSError\<close>, which
  \<^verbatim>\<open>EnvironmentError\<close> names, so it is caught and logged and the archive source is tried.
\<close>

theorem download_model_propagates_uncaught:
  assumes "source m ''hf'' = Some hf" and "hf \<noteq> []"
    and "snapshot_download hf [''model.safetensors'', ''pytorch_model.bin''] (Some (str cache_dir)) w
           = (Inl e, w')"
  shows "(\<not> issubclass (cls e) EnvironmentError \<and> \<not> issubclass (cls e) RepositoryNotFoundError
          \<and> \<not> issubclass (cls e) ValueError
          \<longrightarrow> download_model snapshot_download net untar m cache_dir w = (Inl e, w'))
       \<and> (issubclass (cls e) PermissionError \<and> source m ''url'' = Some url \<and> url \<noteq> []
            \<and> model m = Some name
          \<longrightarrow> download_model snapshot_download net untar m cache_dir w
               = retrieve_model_gcs net untar name url (str cache_dir)
                   (w'\<lparr>errlog := errlog w' @ [fallback_message e]\<rparr>))"
proof (intro conjI impI)
  assume "\<not> issubclass (cls e) EnvironmentError \<and> \<not> issubclass (cls e) RepositoryNotFoundError
          \<and> \<not> issubclass (cls e) ValueError"
  then have "\<not> caught_by [EnvironmentError, RepositoryNotFoundError, ValueError] e"
    by (simp add: caught_by_iff)
  with assms have "hf_attempt snapshot_download m cache_dir w = (Some (Inl e), w')"
    by (simp add: hf_attempt_def download_files_from_huggingface_def)
  then show "download_model snapshot_download net untar m cache_dir w = (Inl e, w')"
    by (simp add: download_model_def)
next
  assume a: "issubclass (cls e) PermissionError \<and> source m ''url'' = Some url \<and> url \<noteq> []
            \<and> model m = Some name"
  have "issubclass c PermissionError \<Longrightarrow> issubclass c EnvironmentError" for c
    by (induction c) (auto simp: PermissionError_def EnvironmentError_def OSError_def)
  with a have c: "caught_by [EnvironmentError, RepositoryNotFoundError, ValueError] e"
    by (simp add: caught_by_iff)
  from assms c have "hf_attempt snapshot_download m cache_dir w
      = (None, w'\<lparr>errlog := errlog w' @ [fallback_message e]\<rparr>)"
    by (simp add: hf_attempt_def download_files_from_huggingface_def)
  with a show "download_model snapshot_download net untar m cache_dir w
               = retrieve_model_gcs net untar name url (str cache_dir)
                   (w'\<lparr>errlog := errlog w' @ [fallback_message e]\<rparr>)"
    by (cases url) (simp_all add: download_model_def model_key_def)
qed

lemmas class_eval = Exception_def OSError_def EnvironmentError_def PermissionError_def
  FileNotFoundError_def FileExistsError_def NotADirectoryError_def IsADirectoryError_def
  ValueError_def KeyError_def AssertionError_def TarError_def RepositoryNotFoundError_def

lemmas gcs_eval = fast_model_name_def cache_tmp_dir_def model_tmp_dir_def model_dir_def
  model_tar_gz_def cache_hit_def glob_star_def retrieve_model_gcs_def
  retrieve_model_gcs_trace_def


theorem download_model_falls_back_witness:
  "source example_descriptor ''hf'' = Some ''org/m-onnx''
   \<and> source example_descriptor ''url'' = Some ''https://host/fast-m.tar.gz''
   \<and> model example_descriptor = Some ''org/m''
   \<and> example_hub (Exc RepositoryNotFoundError ''404 Client Error'') ''org/m-onnx''
         [''model.safetensors'', ''pytorch_model.bin''] (Some (str (Path ''cache''))) example_world
       = (Inl (Exc RepositoryNotFoundError ''404 Client Error''), example_world)
   \<and> issubclass (cls (Exc RepositoryNotFoundError ''404 Client Error'')) RepositoryNotFoundError
   \<and> download_model (example_hub (Exc RepositoryNotFoundError ''404 Client Error''))
         (example_net 200) example_untar example_descriptor (Path ''cache'') example_world
       = retrieve_model_gcs (example_net 200) example_untar ''org/m''
           ''https://host/fast-m.tar.gz'' (str (Path ''cache''))
           (example_world\<lparr>errlog := errlog example_world
              @ [fallback_message (Exc RepositoryNotFoundError ''404 Client Error'')]\<rparr>)
   \<and> fst (download_model (example_hub (Exc RepositoryNotFoundError ''404 Client Error''))
         (example_net 200) example_untar example_descriptor (Path ''cache'') example_world)
       = Inr (PPath False [''cache'', ''fast-m''])"
proof -
  have h1: "source example_descriptor ''hf'' = Some ''org/m-onnx''"
    by (simp add: source_def example_descriptor_def)
  have h2: "''org/m-onnx'' \<noteq> []" by simp
  have h3: "source example_descriptor ''url'' = Some ''https://host/fast-m.tar.gz''"
    by (simp add: source_def example_descriptor_def)
  have h4: "''https://host/fast-m.tar.gz'' \<noteq> []" by simp
  have h5: "model example_descriptor = Some ''org/m''"
    by (simp add: example_descriptor_def)
  have h6: "example_hub (Exc RepositoryNotFoundError ''404 Client Error'') ''org/m-onnx''
         [''model.safetensors'', ''pytorch_model.bin''] (Some (str (Path ''cache''))) example_world
       = (Inl (Exc RepositoryNotFoundError ''404 Client Error''), example_world)"
    by (simp add: example_hub_def)
  have h7: "issubclass (cls (Exc RepositoryNotFoundError ''404 Client Error'')) RepositoryNotFoundError"
    by (simp add: RepositoryNotFoundError_def)
  have h7': "issubclass (cls (Exc RepositoryNotFoundError ''404 Client Error'')) EnvironmentError
      \<or> issubclass (cls (Exc RepositoryNotFoundError ''404 Client Error'')) RepositoryNotFoundError
      \<or> issubclass (cls (Exc RepositoryNotFoundError ''404 Client Error'')) ValueError"
    using h7 by blast
  note t = download_model_falls_back[where snapshot_download =
        "example_hub (Exc RepositoryNotFoundError ''404 Client Error'')"
      and net = "example_net 200" and untar = example_untar, OF h1 h2 h3 h4 h5 h6 h7']
  have v: "fst (retrieve_model_gcs (example_net 200) example_untar ''org/m''
           ''https://host/fast-m.tar.gz'' (str (Path ''cache''))
           (example_world\<lparr>errlog := errlog example_world
              @ [fallback_message (Exc RepositoryNotFoundError ''404 Client Error'')]\<rparr>))
       = Inr (PPath False [''cache'', ''fast-m''])"
    by code_simp
  from t v h1 h3 h5 h6 h7 show ?thesis by simp
qed

text \<open>
  Claim C3 as stated fails for the permission error: raised by the repository attempt,
  it is not propagated. Here the call goes on to the archive source, issues the request
  for the archive and returns the directory unpacked from it; the permission error is
  only in the error log.
\<close>

theorem download_model_permission_denied_counterexample:
  "cls (Exc PermissionError ''denied'') = PermissionError
   \<and> example_hub (Exc PermissionError ''denied'') ''org/m-onnx''
         [''model.safetensors'', ''pytorch_model.bin''] (Some (str (Path ''cache''))) example_world
       = (Inl (Exc PermissionError ''denied''), example_world)
   \<and> fst (download_model (example_hub (Exc PermissionError ''denied'')) (example_net 200)
            example_untar example_descriptor (Path ''cache'') example_world)
       = Inr (PPath False [''cache'', ''fast-m''])
   \<and> requests (snd (download_model (example_hub (Exc PermissionError ''denied'')) (example_net 200)
            example_untar example_descriptor (Path ''cache'') example_world))
       = [''https://host/fast-m.tar.gz'']
   \<and> errlog (snd (download_model (example_hub (Exc PermissionError ''denied'')) (example_net 200)
            example_untar example_descriptor (Path ''cache'') example_world))
       = [fallback_message (Exc PermissionError ''denied'')]"
  by code_simp

theorem download_model_propagates_uncaught_witness:
  "source example_descriptor ''hf'' = Some ''org/m-onnx''
   \<and> example_hub (Exc KeyError ''k'') ''org/m-onnx''
         [''model.safetensors'', ''pytorch_model.bin''] (Some (str (Path ''cache''))) example_world
       = (Inl (Exc KeyError ''k''), example_world)
   \<and> \<not> issubclass (cls (Exc KeyError ''k'')) EnvironmentError
   \<and> \<not> issubclass (cls (Exc KeyError ''k'')) RepositoryNotFoundError
   \<and> \<not> issubclass (cls (Exc KeyError ''k'')) ValueError
   \<and> download_model (example_hub (Exc KeyError ''k'')) (example_net 200) example_untar
         example_descriptor (Path ''cache'') example_world
       = (Inl (Exc KeyError ''k''), example_world)
   \<and> issubclass (cls (Exc PermissionError ''denied'')) PermissionError
   \<and> download_model (example_hub (Exc PermissionError ''denied'')) (example_net 200) example_untar
         example_descriptor (Path ''cache'') example_world
       = retrieve_model_gcs (example_net 200) example_untar ''org/m''
           ''https://host/fast-m.tar.gz'' (str (Path ''cache''))
           (example_world\<lparr>errlog := errlog example_world
              @ [fallback_message (Exc PermissionError ''denied'')]\<rparr>)"
proof -
  have h1: "source example_descriptor ''hf'' = Some ''org/m-onnx''"
    by (simp add: source_def example_descriptor_def)
  have h2: "''org/m-onnx'' \<noteq> []" by simp
  have h3: "example_hub e ''org/m-onnx''
         [''model.safetensors'', ''pytorch_model.bin''] (Some (str (Path ''cache''))) example_world
       = (Inl e, example_world)" for e
    by (simp add: example_hub_def)
  have n: "\<not> issubclass (cls (Exc KeyError ''k'')) EnvironmentError"
    "\<not> issubclass (cls (Exc KeyError ''k'')) RepositoryNotFoundError"
    "\<not> issubclass (cls (Exc KeyError ''k'')) ValueError"
    by (simp_all add: class_eval)
  have p: "issubclass (cls (Exc PermissionError ''denied'')) PermissionError"
    by (simp add: class_eval)
  have u: "source example_descriptor ''url'' = Some ''https://host/fast-m.tar.gz''"
    "''https://host/fast-m.tar.gz'' \<noteq> []" "model example_descriptor = Some ''org/m''"
    by (simp_all add: source_def example_descriptor_def)
  note t1 = download_model_propagates_uncaught[where snapshot_download = "example_hub (Exc KeyError ''k'')"
      and net = "example_net 200" and untar = example_untar, OF h1 h2 h3]
  note t2 = download_model_propagates_uncaught[where snapshot_download =
        "example_hub (Exc PermissionError ''denied'')"
      and net = "example_net 200" and untar = example_untar
      and url = "''https://host/fast-m.tar.gz''" and name = "''org/m''", OF h1 h2 h3]
  from t1 n have 1: "download_model (example_hub (Exc KeyError ''k'')) (example_net 200) example_untar
         example_descriptor (Path ''cache'') example_world
       = (Inl (Exc KeyError ''k''), example_world)"
    by blast
  from t2 p u have 2: "download_model (example_hub (Exc PermissionError ''denied'')) (example_net 200) example_untar
         example_descriptor (Path ''cache'') example_world
       = retrieve_model_gcs (example_net 200) example_untar ''org/m''
           ''https://host/fast-m.tar.gz'' (str (Path ''cache''))
           (example_world\<lparr>errlog := errlog example_world
              @ [fallback_message (Exc PermissionError ''denied'')]\<rparr>)"
    by blast
  from h1 h3 n 1 p 2 show ?thesis by blast
qed

section \<open>Properties of the extraction\<close>




lemma is_dir_exists: "is_dir root p \<Longrightarrow> exists root p"
  by (auto simp: is_dir_def exists_def split: option.splits)

lemma endswith_tar_gz_no_slash: "endswith s ''.tar.gz'' \<Longrightarrow> \<not> endswith s ''/''"
  by (cases "rev s") (auto simp: endswith_def)




section \<open>Properties of the archive acquisition\<close>

subsection \<open>Path strings\<close>

lemma split_on_nonempty: "split_on sep s \<noteq> []"
  by (induction s) (auto split: list.splits)

lemma split_on_no_sep: "c \<in> set (split_on sep s) \<Longrightarrow> sep \<notin> set c"
proof (induction s arbitrary: c)
  case Nil
  then show ?case by simp
next
  case (Cons x xs)
  show ?case
  proof (cases "x = sep")
    case True
    with Cons show ?thesis by auto
  next
    case False
    obtain w ws where sp: "split_on sep xs = w # ws"
      using split_on_nonempty[of sep xs] by (cases "split_on sep xs") auto
    with Cons.prems False have "c = x # w \<or> c \<in> set ws" by auto
    then show ?thesis
    proof
      assume "c = x # w"
      moreover from sp Cons.IH[of w] have "sep \<notin> set w" by simp
      ultimately show ?thesis using False by auto
    next
      assume "c \<in> set ws"
      with sp Cons.IH[of c] show ?thesis by simp
    qed
  qed
qed

lemma split_on_plain: "sep \<notin> set c \<Longrightarrow> split_on sep c = [c]"
  by (induction c) auto

lemma split_on_append: "sep \<notin> set c \<Longrightarrow> split_on sep (c @ sep # rest) = c # split_on sep rest"
  by (induction c) auto

lemma split_on_join:
  "ps \<noteq> [] \<Longrightarrow> \<forall>c \<in> set ps. CHR ''/'' \<notin> set c \<Longrightarrow> split_on CHR ''/'' (join ''/'' ps) = ps"
proof (induction "''/''" ps rule: join.induct)
  case 1
  then show ?case by simp
next
  case (2 s)
  then show ?case by (simp add: split_on_plain)
next
  case (3 s t ts)
  then show ?case by (simp add: split_on_append)
qed

lemma parts_Path_plain: "c \<in> set (parts (Path s)) \<Longrightarrow> plain c"
  by (auto simp: Path_def plain_def dest: split_on_no_sep)

lemma Path_plain: "plain c \<Longrightarrow> Path c = PPath False [c]"
  by (cases c) (auto simp: Path_def plain_def split_on_plain)

lemma joinpath_plain: "plain c \<Longrightarrow> joinpath p c = PPath (anchored p) (parts p @ [c])"
  by (simp add: joinpath_def Path_plain)

lemma os_path_str:
  assumes "\<forall>c \<in> set ps. plain c"
  shows "os_path (str (PPath a ps)) = ps"
proof (cases "ps = []")
  case True
  then show ?thesis by (cases a) (simp_all add: os_path_def str_def Path_def proper_def)
next
  case False
  from assms have ns: "\<forall>c \<in> set ps. CHR ''/'' \<notin> set c" and pr: "filter proper ps = ps"
    by (auto simp: plain_def filter_id_conv)
  have "split_on CHR ''/'' (''/'' @ join ''/'' ps) = [] # ps"
    using split_on_append[of "CHR ''/''" "[]" "join ''/'' ps"] split_on_join[OF False ns] by simp
  with split_on_join[OF False ns] pr False show ?thesis
    by (cases a) (simp_all add: os_path_def str_def Path_def proper_def)
qed

lemma plain_tmp: "plain ''tmp''"
  by (simp add: plain_def proper_def)

lemma last_split_no_sep: "sep \<notin> set (last (split_on sep s))"
  using split_on_no_sep[of "last (split_on sep s)" sep s] split_on_nonempty[of sep s] by simp

lemma plain_fast: "plain (fast_model_name model_name)"
  using last_split_no_sep[of "CHR ''/''" model_name]
  by (simp add: plain_def proper_def fast_model_name_def)

lemma plain_fast_targz: "plain (fast_model_name model_name @ ''.tar.gz'')"
  using last_split_no_sep[of "CHR ''/''" model_name]
  by (simp add: plain_def proper_def fast_model_name_def)

lemma fast_neq_tmp: "fast_model_name model_name \<noteq> ''tmp''"
  by (simp add: fast_model_name_def)

lemma fast_neq_targz: "fast_model_name model_name @ ''.tar.gz'' \<noteq> fast_model_name model_name"
  by simp

lemma targz_neq_tmp: "fast_model_name model_name @ ''.tar.gz'' \<noteq> ''tmp''"
  by (simp add: fast_model_name_def)

text \<open>The four paths of the acquisition, by their components.\<close>

lemma cache_tmp_dir_parts:
  "cache_tmp_dir cache_dir = PPath (anchored (Path cache_dir)) (parts (Path cache_dir) @ [''tmp''])"
  by (simp add: cache_tmp_dir_def joinpath_plain plain_tmp)

lemma model_tmp_dir_parts:
  "model_tmp_dir model_name cache_dir
     = PPath (anchored (Path cache_dir))
         (parts (Path cache_dir) @ [''tmp'', fast_model_name model_name])"
  by (simp add: model_tmp_dir_def cache_tmp_dir_parts joinpath_plain plain_fast)

lemma model_dir_parts:
  "model_dir model_name cache_dir
     = PPath (anchored (Path cache_dir)) (parts (Path cache_dir) @ [fast_model_name model_name])"
  by (simp add: model_dir_def joinpath_plain plain_fast)

lemma model_tar_gz_parts:
  "model_tar_gz model_name cache_dir
     = PPath (anchored (Path cache_dir))
         (parts (Path cache_dir) @ [fast_model_name model_name @ ''.tar.gz''])"
  by (simp add: model_tar_gz_def joinpath_plain plain_fast_targz)

lemma os_path_tar_gz:
  "os_path (str (model_tar_gz model_name cache_dir)) = parts (model_tar_gz model_name cache_dir)"
  by (simp add: model_tar_gz_parts os_path_str parts_Path_plain plain_fast_targz)

lemma os_path_cache_tmp:
  "os_path (str (cache_tmp_dir cache_dir)) = parts (cache_tmp_dir cache_dir)"
  by (simp add: cache_tmp_dir_parts os_path_str parts_Path_plain plain_tmp)

lemma contains_append: "contains sub (xs @ sub @ ys)"
proof (induction xs)
  case Nil
  show ?case
  proof (cases "sub @ ys")
    case Nil
    then show ?thesis by simp
  next
    case (Cons a l)
    have "prefix sub (sub @ ys)" by simp
    with Cons show ?thesis by simp
  qed
next
  case (Cons x xs)
  then show ?case by simp
qed

lemma join_snoc: "join sep (ps @ [c]) = (if ps = [] then c else join sep ps @ sep @ c)"
  by (induction sep ps rule: join.induct) auto

lemma contains_tmp_cache_tmp: "contains ''tmp'' (str (cache_tmp_dir cache_dir))"
proof -
  have "\<exists>xs. str (cache_tmp_dir cache_dir) = xs @ ''tmp'' @ []"
    by (auto simp: cache_tmp_dir_parts str_def join_snoc)
  then show ?thesis using contains_append[of "''tmp''" _ "[]"] by metis
qed

lemma str_tar_gz_nonempty: "str (model_tar_gz model_name cache_dir) \<noteq> []"
  by (auto simp: model_tar_gz_parts str_def join_snoc)

lemma endswith_tar_gz: "endswith (str (model_tar_gz model_name cache_dir)) ''.tar.gz''"
proof -
  have "\<exists>xs. str (model_tar_gz model_name cache_dir) = xs @ ''.tar.gz''"
    by (auto simp: model_tar_gz_parts str_def join_snoc)
  then show ?thesis by (auto simp: endswith_def)
qed




lemma apart_sym: "apart p q \<Longrightarrow> apart q p"
  by (auto simp: apart_def)

lemma apart_siblings: "c \<noteq> d \<Longrightarrow> apart (r @ c # cs) (r @ d # ds)"
  by (simp add: apart_def)

lemma lookup_put_frame: "apart p q \<Longrightarrow> lookup (put p x n) q = lookup n q"
  by (simp add: put_def apart_def lookup_modify_frame)

lemma lookup_remove_frame: "apart p q \<Longrightarrow> lookup (remove p n) q = lookup n q"
  by (simp add: remove_def apart_def lookup_modify_frame)

lemma makedirs_frame:
  "makedirs p n = Inr n' \<Longrightarrow> \<not> prefix q p \<Longrightarrow> lookup n' q = lookup n q"
proof (induction p arbitrary: n n' q)
  case Nil
  then show ?case by (auto split: node.splits)
next
  case (Cons c cs)
  from Cons.prems(1) obtain es where n: "n = Dir es" by (cases n) auto
  define child where "child = (case map_of es c of None \<Rightarrow> Dir [] | Some m \<Rightarrow> m)"
  from Cons.prems(1) n obtain m' where m': "makedirs cs child = Inr m'"
    and n': "n' = Dir (AList.update c m' es)"
    by (auto simp: child_def split: sum.splits)
  from Cons.prems(2) obtain d ds where q: "q = d # ds" by (cases q) auto
  show ?case
  proof (cases "d = c")
    case True
    with Cons.prems(2) q have np: "\<not> prefix ds cs" by simp
    then have ds: "ds \<noteq> []" by auto
    from Cons.IH[OF m' np] have "lookup m' ds = lookup child ds" .
    moreover have "lookup (Dir []) ds = None" using ds by (cases ds) auto
    ultimately show ?thesis
      by (auto simp: n n' q True update_conv' child_def split: option.splits)
  next
    case False
    then show ?thesis by (simp add: n n' q update_conv')
  qed
qed

lemma makedirs_is_dir: "makedirs p n = Inr n' \<Longrightarrow> is_dir n' p"
proof (induction p arbitrary: n n')
  case Nil
  then show ?case by (auto simp: is_dir_def split: node.splits)
next
  case (Cons c cs)
  from Cons.prems obtain es where n: "n = Dir es" by (cases n) auto
  from Cons.prems n obtain m' where
    m': "makedirs cs (case map_of es c of None \<Rightarrow> Dir [] | Some m \<Rightarrow> m) = Inr m'"
    and n': "n' = Dir (AList.update c m' es)"
    by (auto split: sum.splits)
  from Cons.IH[OF m'] show ?case by (simp add: n' is_dir_def update_conv')
qed


lemma lookup_Some_prefix_is_dir: "lookup n (p @ c # r) = Some x \<Longrightarrow> is_dir n p"
proof (induction p arbitrary: n)
  case Nil
  then show ?case by (cases n) (auto simp: is_dir_def)
next
  case (Cons d ds)
  from Cons.prems obtain es m where n: "n = Dir es" and m: "map_of es d = Some m"
    and l: "lookup m (ds @ c # r) = Some x"
    by (cases n) (auto split: option.splits)
  from Cons.IH[OF l] show ?case by (simp add: n m is_dir_def)
qed

lemma is_dir_modify_ancestor: "is_dir n q \<Longrightarrow> r \<noteq> [] \<Longrightarrow> is_dir (modify (q @ r) f n) q"
proof (induction q arbitrary: n)
  case Nil
  then show ?case
    by (cases r; cases n) (auto simp: is_dir_def split: option.splits)
next
  case (Cons d ds)
  from Cons.prems obtain es m where n: "n = Dir es" and m: "map_of es d = Some m"
    and dm: "is_dir m ds"
    by (auto simp: is_dir_def split: node.splits option.splits)
  from Cons.IH[OF dm Cons.prems(2)] Cons.prems(2) show ?case
    by (simp add: n m is_dir_def update_conv')
qed



text \<open>Without \<^verbatim>\<open>..\<close> a path is its own resolution.\<close>

lemma resolve_nodots: "''..'' \<notin> set p \<Longrightarrow> resolve root acc p = Some (acc @ p)"
  by (induction p arbitrary: acc) auto

lemma makedirs_dots_nodots: "''..'' \<notin> set p \<Longrightarrow> makedirs_dots acc p n = makedirs (acc @ p) n"
  by (induction p arbitrary: acc) auto

lemma target_safe: "safe_name name \<Longrightarrow> target dest name = dest @ parts (Path name)"
  by (simp add: target_def joinpath_def safe_name_def Path_def)

lemma nodots_butlast: "''..'' \<notin> set p \<Longrightarrow> ''..'' \<notin> set (butlast p)"
  by (auto dest: in_set_butlastD)

lemma extract_member_safe:
  assumes "safe_name (member_name m)" and "''..'' \<notin> set t"
  shows "extract_member t m n =
     (case m of
        MDir name \<Rightarrow> makedirs (t @ parts (Path name)) n
      | MFile name bytes \<Rightarrow>
          (if exists n (butlast (t @ parts (Path name)))
           then write_file (t @ parts (Path name)) bytes n
           else (case makedirs (butlast (t @ parts (Path name))) n of
                   Inl e \<Rightarrow> Inl e
                 | Inr n' \<Rightarrow> write_file (t @ parts (Path name)) bytes n')))"
proof -
  have nd: "''..'' \<notin> set (t @ parts (Path (member_name m)))"
    using assms by (simp add: safe_name_def)
  note nb = nodots_butlast[OF nd]
  from assms(1) nd nb show ?thesis
    by (cases m)
      (auto simp: extract_member_def member_name_def target_safe resolve_nodots
        makedirs_dots_nodots exists_dots_def write_file_dots_def split: sum.splits)
qed





lemma rmtree_frame: "rmtree p n = Inr n' \<Longrightarrow> apart p q \<Longrightarrow> lookup n' q = lookup n q"
  by (auto simp: rmtree_def lookup_remove_frame split: option.splits node.splits)

lemma unlink_frame: "unlink p n = Inr n' \<Longrightarrow> apart p q \<Longrightarrow> lookup n' q = lookup n q"
  by (auto simp: unlink_def lookup_remove_frame split: option.splits node.splits)



text \<open>Extraction only adds: what exists stays, and each member extracted is there.\<close>

lemma is_dir_prefix: "is_dir n p \<Longrightarrow> prefix q p \<Longrightarrow> is_dir n q"
proof -
  assume d: "is_dir n p" and "prefix q p"
  then obtain r where p: "p = q @ r" by (auto simp: prefix_def)
  show ?thesis
  proof (cases r)
    case Nil
    with d p show ?thesis by simp
  next
    case (Cons c cs)
    from d obtain es where "lookup n p = Some (Dir es)"
      by (auto simp: is_dir_def split: option.splits node.splits)
    with p Cons show ?thesis using lookup_Some_prefix_is_dir[of n q c cs] by simp
  qed
qed

lemma is_dir_exists': "is_dir n p \<Longrightarrow> exists n p"
  by (auto simp: is_dir_def exists_def split: option.splits)

lemma makedirs_keeps: "makedirs p n = Inr n' \<Longrightarrow> exists n q \<Longrightarrow> exists n' q"
proof (cases "prefix q p")
  case True
  assume "makedirs p n = Inr n'"
  from is_dir_prefix[OF makedirs_is_dir[OF this] True] show ?thesis by (rule is_dir_exists')
next
  case False
  assume "makedirs p n = Inr n'" "exists n q"
  with makedirs_frame[OF _ False] show ?thesis by (simp add: exists_def)
qed

lemma write_file_keeps:
  assumes "write_file p bytes n = Inr n'" and "exists n q"
  shows "exists n' q"
proof -
  from assms(1) obtain ps where ne: "p \<noteq> []"
    and par: "lookup n (butlast p) = Some (Dir ps)"
    and nd: "\<not> is_dir n p" and n': "n' = put p (File bytes) n"
    by (auto simp: write_file_def is_dir_def split: if_splits option.splits node.splits)
  from par have pd: "is_dir n (butlast p)" by (simp add: is_dir_def)
  consider "prefix p q" | "\<not> prefix p q" "prefix q p" | "apart p q"
    by (auto simp: apart_def)
  then show ?thesis
  proof cases
    case 1
    then obtain r where q: "q = p @ r" by (auto simp: prefix_def)
    show ?thesis
    proof (cases r)
      case Nil
      with q n' lookup_put_same[OF ne pd] show ?thesis by (simp add: exists_def)
    next
      case (Cons c cs)
      from assms(2) q Cons obtain x where "lookup n (p @ c # cs) = Some x"
        by (auto simp: exists_def)
      from lookup_Some_prefix_is_dir[OF this] nd show ?thesis by simp
    qed
  next
    case 2
    then obtain r where p: "p = q @ r" and r: "r \<noteq> []" by (auto simp: prefix_def)
    then have "prefix q (butlast p)" by (simp add: butlast_append)
    from is_dir_prefix[OF pd this] have "is_dir n q" .
    from is_dir_modify_ancestor[OF this r] have "is_dir n' q" by (simp add: n' put_def p)
    then show ?thesis by (rule is_dir_exists')
  next
    case 3
    with assms(2) n' show ?thesis by (simp add: exists_def lookup_put_frame)
  qed
qed

lemma write_file_creates: "write_file p bytes n = Inr n' \<Longrightarrow> exists n' p"
proof -
  assume w: "write_file p bytes n = Inr n'"
  then obtain ps where ne: "p \<noteq> []" and par: "lookup n (butlast p) = Some (Dir ps)"
    and n': "n' = put p (File bytes) n"
    by (auto simp: write_file_def split: if_splits option.splits node.splits)
  from par have "is_dir n (butlast p)" by (simp add: is_dir_def)
  from lookup_put_same[OF ne this] n' show ?thesis by (simp add: exists_def)
qed

lemma extract_member_keeps:
  assumes "extract_member t m n = Inr n'" and "exists n q"
    and "safe_name (member_name m)" and "''..'' \<notin> set t"
  shows "exists n' q"
  using assms(1,2) unfolding extract_member_safe[OF assms(3,4)]
  by (cases m) (auto split: if_splits sum.splits dest: makedirs_keeps write_file_keeps)

lemma extract_member_creates:
  assumes "extract_member t m n = Inr n'"
    and "safe_name (member_name m)" and "''..'' \<notin> set t"
  shows "exists n' (t @ parts (Path (member_name m)))"
  using assms(1) unfolding extract_member_safe[OF assms(2,3)]
  by (cases m)
    (auto simp: member_name_def split: if_splits sum.splits
      dest: makedirs_is_dir write_file_creates intro: is_dir_exists')

lemma extractall_keeps:
  "extractall t ms n = (None, n') \<Longrightarrow> exists n q \<Longrightarrow>
   \<forall>m \<in> set ms. safe_name (member_name m) \<Longrightarrow> ''..'' \<notin> set t \<Longrightarrow> exists n' q"
proof (induction ms arbitrary: n)
  case Nil
  then show ?case by simp
next
  case (Cons m ms)
  from Cons.prems(1) obtain n1 where 1: "extract_member t m n = Inr n1"
    and 2: "extractall t ms n1 = (None, n')"
    by (auto split: sum.splits)
  from extract_member_keeps[OF 1 Cons.prems(2) _ Cons.prems(4)] Cons.prems(3)
  have "exists n1 q" by simp
  from Cons.IH[OF 2 this _ Cons.prems(4)] Cons.prems(3) show ?case by simp
qed

lemma extractall_creates:
  "extractall t ms n = (None, n') \<Longrightarrow> m \<in> set ms \<Longrightarrow>
   \<forall>m \<in> set ms. safe_name (member_name m) \<Longrightarrow> ''..'' \<notin> set t \<Longrightarrow>
     exists n' (t @ parts (Path (member_name m)))"
proof (induction ms arbitrary: n)
  case Nil
  then show ?case by simp
next
  case (Cons a ms)
  from Cons.prems(1) obtain n1 where 1: "extract_member t a n = Inr n1"
    and 2: "extractall t ms n1 = (None, n')"
    by (auto split: sum.splits)
  from Cons.prems(3) have sa: "safe_name (member_name a)"
    and sms: "\<forall>m \<in> set ms. safe_name (member_name m)" by simp_all
  show ?case
  proof (cases "m = a")
    case True
    from extract_member_creates[OF 1 sa Cons.prems(4)] True
    have "exists n1 (t @ parts (Path (member_name m)))" by simp
    from extractall_keeps[OF 2 this sms Cons.prems(4)] show ?thesis .
  next
    case False
    with Cons.prems(2) have "m \<in> set ms" by simp
    from Cons.IH[OF 2 this sms Cons.prems(4)] show ?thesis .
  qed
qed

subsection \<open>Runs of statements\<close>

lemma run_steps_hd: "run_steps sts w = (r, ws) \<Longrightarrow> ws \<noteq> [] \<and> ws ! 0 = w"
  by (cases sts) (auto split: prod.splits option.splits)



lemma run_steps_None_nth:
  "run_steps sts w = (None, ws) \<Longrightarrow>
     length ws = Suc (length sts) \<and> (\<forall>i < length sts. (sts ! i) (ws ! i) = (None, ws ! Suc i))"
proof (induction sts arbitrary: w ws)
  case Nil
  then show ?case by auto
next
  case (Cons s sts)
  obtain x w1 where s: "s w = (x, w1)" by (cases "s w")
  with Cons.prems have x: "x = None" by (cases x) auto
  obtain r1 ws1 where rec: "run_steps sts w1 = (r1, ws1)" by (cases "run_steps sts w1")
  with Cons.prems s x have r1: "r1 = None" and ws: "ws = w # ws1" by auto
  from run_steps_hd[OF rec] have h: "ws1 \<noteq> []" "ws1 ! 0 = w1" by simp_all
  from Cons.IH[OF rec[unfolded r1]] have len: "length ws1 = Suc (length sts)"
    and st: "\<forall>i < length sts. (sts ! i) (ws1 ! i) = (None, ws1 ! Suc i)" by simp_all
  show ?case
  proof (intro conjI allI impI)
    show "length ws = Suc (length (s # sts))" using len ws by simp
  next
    fix i assume "i < length (s # sts)"
    then show "((s # sts) ! i) (ws ! i) = (None, ws ! Suc i)"
      using st s x h ws by (cases i) auto
  qed
qed

subsection \<open>The paths of the acquisition are apart\<close>

lemma final_parts:
  "parts (model_dir model_name cache_dir)
     = parts (Path cache_dir) @ [fast_model_name model_name]"
  by (simp add: model_dir_parts)

lemma apart_staging_final:
  "apart (parts (model_tmp_dir model_name cache_dir)) (parts (model_dir model_name cache_dir))"
  using apart_siblings[of "''tmp''" "fast_model_name model_name" "parts (Path cache_dir)"
      "[fast_model_name model_name]" "[]"] fast_neq_tmp[of model_name]
  by (simp add: model_tmp_dir_parts model_dir_parts)



lemma apart_tmp_targz:
  "apart (parts (cache_tmp_dir cache_dir)) (parts (model_tar_gz model_name cache_dir))"
  using apart_siblings[of "''tmp''" "fast_model_name model_name @ ''.tar.gz''"
      "parts (Path cache_dir)" "[]" "[]"] targz_neq_tmp[of model_name]
  by (simp add: cache_tmp_dir_parts model_tar_gz_parts)

lemma apart_targz_staging:
  "apart (parts (model_tar_gz model_name cache_dir)) (parts (model_tmp_dir model_name cache_dir))"
  using apart_siblings[of "fast_model_name model_name @ ''.tar.gz''" "''tmp''"
      "parts (Path cache_dir)" "[]" "[fast_model_name model_name]"] targz_neq_tmp[of model_name]
  by (simp add: model_tmp_dir_parts model_tar_gz_parts)

subsection \<open>The statements before the rename leave the final directory alone\<close>

lemma fs_step_frame:
  assumes "\<And>n n'. f n = Inr n' \<Longrightarrow> lookup n' q = lookup n q"
  shows "fs_step f w = (r, w') \<Longrightarrow> lookup (fs w') q = lookup (fs w) q"
  using assms by (auto simp: fs_step_def split: sum.splits)

lemma remove_stale_step_frame:
  "remove_stale_step model_name cache_dir w = (r, w') \<Longrightarrow>
     apart (parts (model_tmp_dir model_name cache_dir)) q \<Longrightarrow>
     lookup (fs w') q = lookup (fs w) q"
  by (auto simp: remove_stale_step_def fs_step_def rmtree_frame split: if_splits sum.splits)

lemma mkdir_step_frame:
  "mkdir_step cache_dir w = (r, w') \<Longrightarrow> apart (parts (cache_tmp_dir cache_dir)) q \<Longrightarrow>
     lookup (fs w') q = lookup (fs w) q"
  by (auto simp: mkdir_step_def fs_step_def apart_def makedirs_frame split: sum.splits)


lemma nodots_cache_tmp:
  "''..'' \<notin> set (parts (Path cache_dir)) \<Longrightarrow> ''..'' \<notin> set (parts (cache_tmp_dir cache_dir))"
  by (simp add: cache_tmp_dir_parts)


lemma assert_step_same: "assert_step model_name cache_dir w = (r, w') \<Longrightarrow> w' = w"
  by (auto simp: assert_step_def split: if_splits)

lemma unlink_step_frame:
  "unlink_step model_name cache_dir w = (r, w') \<Longrightarrow>
     apart (parts (model_tar_gz model_name cache_dir)) q \<Longrightarrow>
     lookup (fs w') q = lookup (fs w) q"
  by (auto simp: unlink_step_def fs_step_def unlink_frame split: sum.splits)





lemma is_dir_remove_staging:
  "is_dir n (parts (Path cache_dir)) \<Longrightarrow>
     is_dir (remove (parts (model_tmp_dir model_name cache_dir)) n) (parts (Path cache_dir))"
  using is_dir_modify_ancestor[of n "parts (Path cache_dir)" "[''tmp'', fast_model_name model_name]"]
  by (simp add: remove_def model_tmp_dir_parts)



lemma decompress_step_success:
  assumes "decompress_step untar model_name cache_dir v = (None, v')"
  shows "\<exists>bytes. lookup (fs v) (parts (model_tar_gz model_name cache_dir)) = Some (File bytes)
           \<and> failure (untar bytes) = None
           \<and> extractall (parts (cache_tmp_dir cache_dir)) (members (untar bytes)) (fs v)
               = (None, fs v')"
proof -
  let ?t = "str (model_tar_gz model_name cache_dir)"
  let ?d = "str (cache_tmp_dir cache_dir)"
  from assms obtain y where d: "decompress_to_cache untar ?t ?d v = (Inr y, v')"
    by (auto simp: decompress_step_def call_step_def split: prod.splits sum.splits)
  then obtain root' where oe: "open_and_extract untar ?t ?d (fs v) = (None, root')"
    and v': "v' = v\<lparr>fs := root'\<rparr>"
    by (auto simp: decompress_to_cache_def split: if_splits prod.splits option.splits sum.splits)
  from oe show ?thesis
    by (auto simp: open_and_extract_def os_path_tar_gz os_path_cache_tmp v'
        split: option.splits node.splits prod.splits)
qed




lemma safe_reader_example_untar: "safe_reader example_untar"
proof -
  have "safe_name ''fast-m''" and "safe_name ''fast-m/model.onnx''" by code_simp+
  then show ?thesis
    by (auto simp: safe_reader_def example_untar_def member_name_def split: if_splits)
qed






lemma rename_success:
  assumes "rename src dst n = Inr n'" and "src \<noteq> dst"
  shows "\<exists>x. lookup n src = Some x \<and> n' = put dst x (remove src n) \<and> is_dir n (butlast dst)
             \<and> dst \<noteq> []"
  using assms
  by (auto simp: rename_def is_dir_def split: option.splits if_splits node.splits)

lemma staging_neq_final:
  "parts (model_tmp_dir model_name cache_dir) \<noteq> parts (model_dir model_name cache_dir)"
  using apart_staging_final[of model_name cache_dir] by (auto simp: apart_def)

lemma rename_step_moves:
  assumes "rename_step model_name cache_dir w = (None, w')"
  shows "\<exists>x. lookup (fs w) (parts (model_tmp_dir model_name cache_dir)) = Some x
           \<and> lookup (fs w') (parts (model_dir model_name cache_dir)) = Some x"
proof -
  let ?S = "parts (model_tmp_dir model_name cache_dir)"
  let ?F = "parts (model_dir model_name cache_dir)"
  from assms obtain n' where rn: "rename ?S ?F (fs w) = Inr n'" and w': "w' = w\<lparr>fs := n'\<rparr>"
    by (auto simp: rename_step_def fs_step_def split: sum.splits)
  from rename_success[OF rn staging_neq_final] obtain x where x: "lookup (fs w) ?S = Some x"
    and n': "n' = put ?F x (remove ?S (fs w))" and d: "is_dir (fs w) (butlast ?F)" and ne: "?F \<noteq> []"
    by blast
  from d have "is_dir (remove ?S (fs w)) (butlast ?F)"
    using is_dir_remove_staging[of "fs w" cache_dir model_name] by (simp add: model_dir_parts)
  from lookup_put_same[OF ne this] have "lookup n' ?F = Some x" by (simp add: n')
  with x w' show ?thesis by simp
qed

lemma write_file_content: "write_file p bytes n = Inr n' \<Longrightarrow> lookup n' p = Some (File bytes)"
proof -
  assume a: "write_file p bytes n = Inr n'"
  then have ne: "p \<noteq> []" and d: "is_dir n (butlast p)" and n': "n' = put p (File bytes) n"
    by (auto simp: write_file_def is_dir_def split: if_splits option.splits node.splits)
  from lookup_put_same[OF ne d] n' show ?thesis by simp
qed

lemma open_wb_content:
  "open_wb s bytes n = Inr n' \<Longrightarrow> lookup n' (os_path s) = Some (File bytes)"
  by (auto simp: open_wb_def write_file_content split: if_splits option.splits node.splits)

lemma download_fetches:
  assumes "download_file_from_gcs net url out v = (Inr x, v')"
    and "out \<noteq> []" and "\<not> endswith out ''/''"
  shows "(lookup (fs v) (os_path out) = None \<longrightarrow>
            (\<exists>rsp. net url = Inr rsp
               \<and> lookup (fs v') (os_path out) = Some (File (concat (chunks rsp)))))
       \<and> (lookup (fs v) (os_path out) \<noteq> None \<longrightarrow> v' = v)"
  using assms
  by (auto simp: download_file_from_gcs_def Let_def os_path_exists_def exists_def
      concat_nonempty_chunks
      split: if_splits sum.splits option.splits dest: open_wb_content)

lemma exists_below_dir:
  "exists n (p @ c # cs) \<Longrightarrow> \<exists>es. lookup n p = Some (Dir es) \<and> es \<noteq> []"
  by (auto simp: exists_def lookup_append split: option.splits node.splits)

lemma populated_hit:
  "lookup (fs w) (parts (model_dir model_name cache_dir)) = Some (Dir es) \<Longrightarrow> es \<noteq> [] \<Longrightarrow>
     cache_hit model_name cache_dir w"
  by (simp add: cache_hit_def exists_def glob_star_def)

lemma hit_returns:
  "cache_hit model_name cache_dir w \<Longrightarrow>
     retrieve_model_gcs net untar model_name source_url cache_dir w
       = (Inr (model_dir model_name cache_dir), w)"
  by (simp add: retrieve_model_gcs_def retrieve_model_gcs_trace_def)

lemma gcs_steps_nth:
  "gcs_steps net untar model_name source_url cache_dir ! 0 = remove_stale_step model_name cache_dir"
  "gcs_steps net untar model_name source_url cache_dir ! 1 = mkdir_step cache_dir"
  "gcs_steps net untar model_name source_url cache_dir ! 2
     = download_step net model_name source_url cache_dir"
  "gcs_steps net untar model_name source_url cache_dir ! 3
     = decompress_step untar model_name cache_dir"
  "gcs_steps net untar model_name source_url cache_dir ! 4 = assert_step model_name cache_dir"
  "gcs_steps net untar model_name source_url cache_dir ! 5 = unlink_step model_name cache_dir"
  "gcs_steps net untar model_name source_url cache_dir ! 6 = rename_step model_name cache_dir"
  "length (gcs_steps net untar model_name source_url cache_dir) = 7"
  by (simp_all add: gcs_steps_def)

lemma miss_populates:
  assumes miss: "\<not> cache_hit model_name cache_dir w"
    and run: "retrieve_model_gcs net untar model_name source_url cache_dir w = (Inr p, w')"
    and nodots: "''..'' \<notin> set (parts (Path cache_dir))"
    and safe: "safe_reader untar"
    and arch: "(lookup (fs w) (parts (model_tar_gz model_name cache_dir)) = None
                  \<and> net source_url = Inr rsp \<and> bytes = concat (chunks rsp))
               \<or> lookup (fs w) (parts (model_tar_gz model_name cache_dir)) = Some (File bytes)"
    and mem: "m \<in> set (members (untar bytes))"
    and name: "parts (Path (member_name m)) = fast_model_name model_name # c # cs"
  shows "cache_hit model_name cache_dir w'"
proof -
  let ?S = "parts (model_tmp_dir model_name cache_dir)"
  let ?F = "parts (model_dir model_name cache_dir)"
  let ?A = "parts (model_tar_gz model_name cache_dir)"
  let ?T = "parts (cache_tmp_dir cache_dir)"
  let ?out = "str (model_tar_gz model_name cache_dir)"
  let ?sts = "gcs_steps net untar model_name source_url cache_dir"
  obtain r ws where tr: "retrieve_model_gcs_trace net untar model_name source_url cache_dir w = (r, ws)"
    by (cases "retrieve_model_gcs_trace net untar model_name source_url cache_dir w")
  with run have r: "r = None" and w': "w' = last ws"
    by (auto simp: retrieve_model_gcs_def split: option.splits)
  from tr miss r have rs: "run_steps ?sts w = (None, ws)"
    by (simp add: retrieve_model_gcs_trace_def)
  from run_steps_hd[OF rs] have w0: "ws ! 0 = w" by simp
  from run_steps_None_nth[OF rs] have len: "length ws = 8"
    and st: "\<forall>i < 7. (?sts ! i) (ws ! i) = (None, ws ! Suc i)"
    by (simp_all add: gcs_steps_nth)
  from st have "(?sts ! 0) (ws ! 0) = (None, ws ! Suc 0)"
    and "(?sts ! 1) (ws ! 1) = (None, ws ! Suc 1)"
    and "(?sts ! 2) (ws ! 2) = (None, ws ! Suc 2)"
    and "(?sts ! 3) (ws ! 3) = (None, ws ! Suc 3)"
    and "(?sts ! 4) (ws ! 4) = (None, ws ! Suc 4)"
    and "(?sts ! 5) (ws ! 5) = (None, ws ! Suc 5)"
    and "(?sts ! 6) (ws ! 6) = (None, ws ! Suc 6)"
    by simp_all
  then have s0: "remove_stale_step model_name cache_dir w = (None, ws ! 1)"
    and s1: "mkdir_step cache_dir (ws ! 1) = (None, ws ! 2)"
    and s2: "download_step net model_name source_url cache_dir (ws ! 2) = (None, ws ! 3)"
    and s3: "decompress_step untar model_name cache_dir (ws ! 3) = (None, ws ! 4)"
    and s4: "assert_step model_name cache_dir (ws ! 4) = (None, ws ! 5)"
    and s5: "unlink_step model_name cache_dir (ws ! 5) = (None, ws ! 6)"
    and s6: "rename_step model_name cache_dir (ws ! 6) = (None, ws ! 7)"
    by (simp_all add: gcs_steps_def w0 eval_nat_numeral)
  from len have "ws \<noteq> []" by auto
  with len have lst: "last ws = ws ! 7" by (simp add: last_conv_nth)
  have a2: "lookup (fs (ws ! 2)) ?A = lookup (fs w) ?A"
    using remove_stale_step_frame[OF s0 apart_sym[OF apart_targz_staging]]
      mkdir_step_frame[OF s1 apart_tmp_targz] by simp
  from s2 obtain x where dl: "download_file_from_gcs net source_url ?out (ws ! 2) = (Inr x, ws ! 3)"
    by (auto simp: download_step_def call_step_def split: prod.splits sum.splits)
  have nsl: "\<not> endswith ?out ''/''"
    using endswith_tar_gz endswith_tar_gz_no_slash by blast
  note df = download_fetches[OF dl str_tar_gz_nonempty nsl, unfolded os_path_tar_gz a2]
  from arch have a3: "lookup (fs (ws ! 3)) ?A = Some (File bytes)"
  proof
    assume "lookup (fs w) ?A = None \<and> net source_url = Inr rsp \<and> bytes = concat (chunks rsp)"
    with df show ?thesis by auto
  next
    assume h: "lookup (fs w) ?A = Some (File bytes)"
    with df have "ws ! 3 = ws ! 2" by simp
    with a2 h show ?thesis by simp
  qed
  from decompress_step_success[OF s3] a3
  have ex: "extractall ?T (members (untar bytes)) (fs (ws ! 3)) = (None, fs (ws ! 4))"
    by auto
  from safe have sm: "\<forall>m \<in> set (members (untar bytes)). safe_name (member_name m)"
    by (simp add: safe_reader_def)
  from extractall_creates[OF ex mem sm nodots_cache_tmp[OF nodots]] name
  have "exists (fs (ws ! 4)) (?S @ c # cs)"
    by (simp add: model_tmp_dir_parts cache_tmp_dir_parts)
  from exists_below_dir[OF this] obtain es where es: "lookup (fs (ws ! 4)) ?S = Some (Dir es)"
    and ne: "es \<noteq> []" by blast
  from assert_step_same[OF s4] unlink_step_frame[OF s5 apart_targz_staging] es
  have "lookup (fs (ws ! 6)) ?S = Some (Dir es)" by simp
  with rename_step_moves[OF s6] have "lookup (fs (ws ! 7)) ?F = Some (Dir es)" by auto
  from populated_hit[OF this ne] show ?thesis by (simp add: w' lst)
qed


text \<open>
  Claim C2, as amended. When the final directory exists and has at least one entry,
  \<^verbatim>\<open>retrieve_model_gcs\<close> returns its path and leaves the world as it is: no request, no
  output, no change of the file system. Take a cache root with no component \<^verbatim>\<open>..\<close>, an
  archive reader none of whose members is named by an absolute path or by a path with a
  component \<^verbatim>\<open>..\<close>, and a call that has returned a path. When that call was a cache hit,
  or when the archive it extracted (the one found at the archive path or, none being
  there, the body of the response) has a member inside its top directory
  \<^verbatim>\<open>fast-\<close>\<open>name\<close>, the next call on the world it left returns the same path and leaves
  that world as it is, whatever the transport would answer: it issues no request.
\<close>

theorem retrieve_model_gcs_cache_hit:
  "(exists (fs w) (parts (model_dir model_name cache_dir))
      \<and> glob_star (fs w) (parts (model_dir model_name cache_dir)) \<noteq> [] \<longrightarrow>
        retrieve_model_gcs net untar model_name source_url cache_dir w
          = (Inr (model_dir model_name cache_dir), w))
   \<and> (''..'' \<notin> set (parts (Path cache_dir)) \<and> safe_reader untar
      \<and> retrieve_model_gcs net untar model_name source_url cache_dir w = (Inr p, w')
      \<and> (cache_hit model_name cache_dir w
          \<or> (lookup (fs w) (parts (model_tar_gz model_name cache_dir)) = Some (File bytes)
               \<or> lookup (fs w) (parts (model_tar_gz model_name cache_dir)) = None
                  \<and> net source_url = Inr rsp \<and> bytes = concat (chunks rsp))
            \<and> m \<in> set (members (untar bytes))
            \<and> parts (Path (member_name m)) = fast_model_name model_name # c # cs) \<longrightarrow>
        p = model_dir model_name cache_dir
        \<and> retrieve_model_gcs net' untar' model_name source_url' cache_dir w' = (Inr p, w')
        \<and> requests (snd (retrieve_model_gcs net' untar' model_name source_url' cache_dir w'))
            = requests w')"
proof (intro conjI impI)
  assume "exists (fs w) (parts (model_dir model_name cache_dir))
      \<and> glob_star (fs w) (parts (model_dir model_name cache_dir)) \<noteq> []"
  then have "cache_hit model_name cache_dir w" by (simp add: cache_hit_def)
  then show "retrieve_model_gcs net untar model_name source_url cache_dir w
          = (Inr (model_dir model_name cache_dir), w)"
    by (rule hit_returns)
next
  assume a: "''..'' \<notin> set (parts (Path cache_dir)) \<and> safe_reader untar
      \<and> retrieve_model_gcs net untar model_name source_url cache_dir w = (Inr p, w')
      \<and> (cache_hit model_name cache_dir w
          \<or> (lookup (fs w) (parts (model_tar_gz model_name cache_dir)) = Some (File bytes)
               \<or> lookup (fs w) (parts (model_tar_gz model_name cache_dir)) = None
                  \<and> net source_url = Inr rsp \<and> bytes = concat (chunks rsp))
            \<and> m \<in> set (members (untar bytes))
            \<and> parts (Path (member_name m)) = fast_model_name model_name # c # cs)"
  then have nodots: "''..'' \<notin> set (parts (Path cache_dir))" and safe: "safe_reader untar"
    and run: "retrieve_model_gcs net untar model_name source_url cache_dir w = (Inr p, w')"
    by simp_all
  from run show p: "p = model_dir model_name cache_dir"
    by (auto simp: retrieve_model_gcs_def split: prod.splits option.splits)
  have hit': "cache_hit model_name cache_dir w'"
  proof (cases "cache_hit model_name cache_dir w")
    case True
    from hit_returns[OF True, of net untar source_url] run have "w' = w" by simp
    with True show ?thesis by simp
  next
    case False
    with a have arch: "(lookup (fs w) (parts (model_tar_gz model_name cache_dir)) = None
                  \<and> net source_url = Inr rsp \<and> bytes = concat (chunks rsp))
               \<or> lookup (fs w) (parts (model_tar_gz model_name cache_dir)) = Some (File bytes)"
      and mem: "m \<in> set (members (untar bytes))"
      and name: "parts (Path (member_name m)) = fast_model_name model_name # c # cs"
      by blast+
    from miss_populates[OF False run nodots safe arch mem name] show ?thesis .
  qed
  from hit_returns[OF hit', of net' untar' source_url'] p
  show second: "retrieve_model_gcs net' untar' model_name source_url' cache_dir w' = (Inr p, w')"
    by simp
  then show "requests (snd (retrieve_model_gcs net' untar' model_name source_url' cache_dir w'))
            = requests w'"
    by simp
qed

text \<open>
  Without the condition on the archive the second call goes back to the network: an
  archive whose only member is its top directory leaves the final directory empty, so the
  next call is no cache hit and issues the request again.
\<close>

theorem retrieve_model_gcs_cache_hit_counterexample:
  "fst (retrieve_model_gcs (example_net 200) example_empty_untar ''org/m'' ''u'' ''cache''
          example_world) = Inr (PPath False [''cache'', ''fast-m''])
   \<and> requests (snd (retrieve_model_gcs (example_net 200) example_empty_untar ''org/m'' ''u''
                      ''cache'' example_world)) = [''u'']
   \<and> lookup (fs (snd (retrieve_model_gcs (example_net 200) example_empty_untar ''org/m'' ''u''
                        ''cache'' example_world))) [''cache'', ''fast-m''] = Some (Dir [])
   \<and> fst (retrieve_model_gcs (example_net 200) example_empty_untar ''org/m'' ''u'' ''cache''
            (snd (retrieve_model_gcs (example_net 200) example_empty_untar ''org/m'' ''u''
                    ''cache'' example_world))) = Inr (PPath False [''cache'', ''fast-m''])
   \<and> requests (snd (retrieve_model_gcs (example_net 200) example_empty_untar ''org/m'' ''u''
                      ''cache''
                      (snd (retrieve_model_gcs (example_net 200) example_empty_untar ''org/m''
                              ''u'' ''cache'' example_world)))) = [''u'', ''u'']"
  by code_simp

text \<open>
  The amended claim at work: a populated final directory is returned as it is; and after
  the example archive, which holds \<^verbatim>\<open>fast-m/model.onnx\<close>, has been fetched, a second
  call returns the same path without a request, although the transport would now answer
  403.
\<close>

theorem retrieve_model_gcs_cache_hit_witness:
  "exists (fs example_cached_world) (parts (model_dir ''org/m'' ''cache''))
   \<and> glob_star (fs example_cached_world) (parts (model_dir ''org/m'' ''cache'')) \<noteq> []
   \<and> retrieve_model_gcs (example_net 200) example_untar ''org/m'' ''u'' ''cache''
         example_cached_world
       = (Inr (model_dir ''org/m'' ''cache''), example_cached_world)
   \<and> fst (retrieve_model_gcs (example_net 200) example_untar ''org/m'' ''u'' ''cache''
            example_world) = Inr (PPath False [''cache'', ''fast-m''])
   \<and> lookup (fs example_world) (parts (model_tar_gz ''org/m'' ''cache'')) = None
   \<and> MFile ''fast-m/model.onnx'' ''weights'' \<in> set (members (example_untar ''abc''))
   \<and> requests (snd (retrieve_model_gcs (example_net 200) example_untar ''org/m'' ''u''
                      ''cache'' example_world)) = [''u'']
   \<and> retrieve_model_gcs (example_net 403) example_untar ''org/m'' ''u'' ''cache''
         (snd (retrieve_model_gcs (example_net 200) example_untar ''org/m'' ''u'' ''cache''
                 example_world))
       = (Inr (PPath False [''cache'', ''fast-m'']),
          snd (retrieve_model_gcs (example_net 200) example_untar ''org/m'' ''u'' ''cache''
                 example_world))
   \<and> requests (snd (retrieve_model_gcs (example_net 403) example_untar ''org/m'' ''u'' ''cache''
         (snd (retrieve_model_gcs (example_net 200) example_untar ''org/m'' ''u'' ''cache''
                 example_world)))) = [''u'']"
proof -
  let ?first = "retrieve_model_gcs (example_net 200) example_untar ''org/m'' ''u'' ''cache''
                  example_world"
  let ?rsp = "\<lparr>status_code = 200, content_length = None, chunks = [''ab'', [], ''c''],
               stream_error = None\<rparr>"
  let ?m = "MFile ''fast-m/model.onnx'' ''weights''"
  have h1: "exists (fs example_cached_world) (parts (model_dir ''org/m'' ''cache''))"
    by code_simp
  have h2: "glob_star (fs example_cached_world) (parts (model_dir ''org/m'' ''cache'')) \<noteq> []"
    by code_simp
  have f1: "fst ?first = Inr (PPath False [''cache'', ''fast-m''])" by code_simp
  then have f2: "?first = (Inr (PPath False [''cache'', ''fast-m'']), snd ?first)"
    by (metis prod.collapse)
  have f3: "requests (snd ?first) = [''u'']" by code_simp
  have nd: "''..'' \<notin> set (parts (Path ''cache''))" by code_simp
  have a1: "lookup (fs example_world) (parts (model_tar_gz ''org/m'' ''cache'')) = None"
    by code_simp
  have a2: "example_net 200 ''u'' = Inr ?rsp" by (simp add: example_net_def)
  have a3: "''abc'' = concat (chunks ?rsp)" by simp
  have a4: "?m \<in> set (members (example_untar ''abc''))" by (simp add: example_untar_def)
  have a5: "parts (Path (member_name ?m)) = fast_model_name ''org/m'' # ''model.onnx'' # []"
    by code_simp
  note t1 = retrieve_model_gcs_cache_hit[where w = example_cached_world
      and model_name = "''org/m''" and cache_dir = "''cache''" and net = "example_net 200"
      and untar = example_untar and source_url = "''u''", THEN conjunct1, rule_format]
  note t2 = retrieve_model_gcs_cache_hit[where w = example_world and w' = "snd ?first"
      and p = "PPath False [''cache'', ''fast-m'']"
      and model_name = "''org/m''" and cache_dir = "''cache''" and net = "example_net 200"
      and untar = example_untar and source_url = "''u''" and net' = "example_net 403"
      and untar' = example_untar and source_url' = "''u''" and bytes = "''abc''"
      and rsp = ?rsp and m = ?m and c = "''model.onnx''" and cs = "[]",
      THEN conjunct2, rule_format]
  have 1: "retrieve_model_gcs (example_net 200) example_untar ''org/m'' ''u'' ''cache''
         example_cached_world
       = (Inr (model_dir ''org/m'' ''cache''), example_cached_world)"
    by (rule t1) (intro conjI h1 h2)
  have pre: "''..'' \<notin> set (parts (Path ''cache'')) \<and> safe_reader example_untar
      \<and> ?first = (Inr (PPath False [''cache'', ''fast-m'']), snd ?first)
      \<and> (cache_hit ''org/m'' ''cache'' example_world
          \<or> (lookup (fs example_world) (parts (model_tar_gz ''org/m'' ''cache''))
                = Some (File ''abc'')
               \<or> lookup (fs example_world) (parts (model_tar_gz ''org/m'' ''cache'')) = None
                  \<and> example_net 200 ''u'' = Inr ?rsp \<and> ''abc'' = concat (chunks ?rsp))
            \<and> ?m \<in> set (members (example_untar ''abc''))
            \<and> parts (Path (member_name ?m)) = fast_model_name ''org/m'' # ''model.onnx'' # [])"
    using nd safe_reader_example_untar f2 a1 a2 a3 a4 a5 by blast
  note t3 = t2[OF pre]
  have 2: "retrieve_model_gcs (example_net 403) example_untar ''org/m'' ''u'' ''cache''
         (snd ?first) = (Inr (PPath False [''cache'', ''fast-m'']), snd ?first)"
    by (rule t3[THEN conjunct2, THEN conjunct1])
  have 3: "requests (snd (retrieve_model_gcs (example_net 403) example_untar ''org/m'' ''u''
         ''cache'' (snd ?first))) = [''u'']"
    using t3[THEN conjunct2, THEN conjunct2] f3 by simp
  show ?thesis
    apply (intro conjI)
            apply (rule h1)
           apply (rule h2)
          apply (rule 1)
         apply (rule f1)
        apply (rule a1)
       apply (rule a4)
      apply (rule f3)
     apply (rule 2)
    apply (rule 3)
    done
qed

subsection \<open>A stale staging directory\<close>




















end
